theory Spec2Isabelle
  imports Main "HOL-Library.Product_Lexorder"
begin

section \<open>ClipStream: a shallow embedding of the video-sharing backend\<close>

text \<open>
  The development follows \<^verbatim>\<open>app/models.py\<close> (the relational schema),
  \<^verbatim>\<open>app/database.py\<close> (sessions) and \<^verbatim>\<open>app/main.py\<close> (the HTTP handlers).

  \<^item> Every mapped class is a record; every table is the list of its rows in insertion
    order. Field names carry a prefix for the table, since the classes share column names.
  \<^item> Identifiers and timestamps are Python integers, hence \<open>int\<close>. The clock
    (\<^verbatim>\<open>datetime.utcnow\<close>) is an input \<open>now\<close> of every handler that inserts a row.
  \<^item> Strings are lists of characters. The character tests below cover the ASCII range,
    which is what the genre examples of the specification use.
  \<^item> An exception is a value \<open>Inl e\<close> of the sum type \<open>error + 'a\<close>.
  \<^item> A session is a record of the committed database, the view of the running
    transaction and a flag telling whether the session was closed. Handlers pass it on
    explicitly and return it together with their result.
  \<^item> \<^verbatim>\<open>app/security.py\<close> is not part of the sources at hand: \<open>decode_token\<close>,
    \<open>get_password_hash\<close>, \<open>verify_password\<close> and \<open>create_access_token\<close> are parameters of
    the functions that call them.
  \<^item> The relationship \<^verbatim>\<open>Video.genres\<close> is a Python list, and a flush writes one row of the
    link table for each of its elements; the database checks primary keys and unique
    constraints on every insert.
\<close>

subsection \<open>Schema (models.py)\<close>

record user =
  u_id :: int
  u_username :: string
  u_password_hash :: string
  u_created_at :: int

record genre =
  g_id :: int
  g_name :: string

record video =
  v_id :: int
  v_title :: string
  v_description :: "string option"
  v_filename :: string
  v_created_at :: int
  v_owner_id :: int

record comment =
  c_id :: int
  c_content :: string
  c_created_at :: int
  c_author_id :: int
  c_video_id :: int

record video_like =
  vl_id :: int
  vl_user_id :: int
  vl_video_id :: int
  vl_created_at :: int

record subscription =
  sb_id :: int
  sb_subscriber_id :: int
  sb_channel_id :: int
  sb_created_at :: int

text \<open>A row of \<^verbatim>\<open>video_genre_table\<close> is the pair \<open>(video_id, genre_id)\<close>.\<close>

record db =
  users :: "user list"
  genres :: "genre list"
  videos :: "video list"
  video_genre :: "(int \<times> int) list"
  comments :: "comment list"
  video_likes :: "video_like list"
  subscriptions :: "subscription list"

definition empty_db :: db where
  "empty_db = \<lparr>users = [], genres = [], videos = [], video_genre = [], comments = [],
     video_likes = [], subscriptions = []\<rparr>"

subsection \<open>Errors\<close>

text \<open>
  \<open>HTTP_400\<close>, \<open>HTTP_401\<close> and \<open>HTTP_404\<close> are the \<^verbatim>\<open>HTTPException\<close>s the handlers raise,
  with their detail message. \<open>IntegrityError\<close> is the exception of a statement that
  violates a primary key or a unique constraint; no handler catches it.
\<close>

datatype error =
    HTTP_400 string
  | HTTP_401 string
  | HTTP_404 string
  | IntegrityError string

subsection \<open>Sessions (database.py)\<close>

record session =
  persisted :: db
  txn :: db
  closed :: bool

definition SessionLocal :: "db \<Rightarrow> session" where
  "SessionLocal d = \<lparr>persisted = d, txn = d, closed = False\<rparr>"

definition commit :: "session \<Rightarrow> session" where
  "commit s = s\<lparr>persisted := txn s\<rparr>"

definition rollback :: "session \<Rightarrow> session" where
  "rollback s = s\<lparr>txn := persisted s\<rparr>"

text \<open>Closing a session releases its connection; work that was not committed is lost.\<close>

definition close :: "session \<Rightarrow> session" where
  "close s = s\<lparr>txn := persisted s, closed := True\<rparr>"

text \<open>
  \<^verbatim>\<open>get_db\<close> of main.py: the dependency every handler receives its session from.
  \<^verbatim>\<open>try: yield db  finally: db.close()\<close>
\<close>

definition get_db :: "(session \<Rightarrow> session \<times> (error + 'a)) \<Rightarrow> db \<Rightarrow> session \<times> (error + 'a)" where
  "get_db handler d = (case handler (SessionLocal d) of (s, r) \<Rightarrow> (close s, r))"


text \<open>The database a request leaves behind, and its response.\<close>

definition run_request :: "(session \<Rightarrow> session \<times> (error + 'a)) \<Rightarrow> db \<Rightarrow> db \<times> (error + 'a)" where
  "run_request handler d = (case get_db handler d of (s, r) \<Rightarrow> (persisted s, r))"

subsection \<open>Rows and constraints\<close>

text \<open>
  An integer primary key of SQLite without AUTOINCREMENT: one more than the largest key
  in the table, 1 on an empty table.
\<close>

definition next_id :: "int list \<Rightarrow> int" where
  "next_id ids = (case ids of [] \<Rightarrow> 1 | x # xs \<Rightarrow> fold max xs x + 1)"

text \<open>
  A statement that violates a constraint raises; the session then rolls the transaction
  back, as a failed flush does.
\<close>

definition insert_user :: "user \<Rightarrow> session \<Rightarrow> session \<times> (error + unit)" where
  "insert_user u s =
     (if u_id u \<in> set (map u_id (users (txn s))) \<or> u_username u \<in> set (map u_username (users (txn s)))
      then (rollback s, Inl (IntegrityError ''users''))
      else (s\<lparr>txn := (txn s)\<lparr>users := users (txn s) @ [u]\<rparr>\<rparr>, Inr ()))"

definition insert_genre :: "genre \<Rightarrow> session \<Rightarrow> session \<times> (error + unit)" where
  "insert_genre g s =
     (if g_id g \<in> set (map g_id (genres (txn s))) \<or> g_name g \<in> set (map g_name (genres (txn s)))
      then (rollback s, Inl (IntegrityError ''genres''))
      else (s\<lparr>txn := (txn s)\<lparr>genres := genres (txn s) @ [g]\<rparr>\<rparr>, Inr ()))"

definition insert_video :: "video \<Rightarrow> session \<Rightarrow> session \<times> (error + unit)" where
  "insert_video v s =
     (if v_id v \<in> set (map v_id (videos (txn s)))
      then (rollback s, Inl (IntegrityError ''videos''))
      else (s\<lparr>txn := (txn s)\<lparr>videos := videos (txn s) @ [v]\<rparr>\<rparr>, Inr ()))"

definition insert_video_genre :: "int \<times> int \<Rightarrow> session \<Rightarrow> session \<times> (error + unit)" where
  "insert_video_genre row s =
     (if row \<in> set (video_genre (txn s))
      then (rollback s, Inl (IntegrityError ''video_genre''))
      else (s\<lparr>txn := (txn s)\<lparr>video_genre := video_genre (txn s) @ [row]\<rparr>\<rparr>, Inr ()))"

definition insert_comment :: "comment \<Rightarrow> session \<Rightarrow> session \<times> (error + unit)" where
  "insert_comment c s =
     (if c_id c \<in> set (map c_id (comments (txn s)))
      then (rollback s, Inl (IntegrityError ''comments''))
      else (s\<lparr>txn := (txn s)\<lparr>comments := comments (txn s) @ [c]\<rparr>\<rparr>, Inr ()))"

definition insert_video_like :: "video_like \<Rightarrow> session \<Rightarrow> session \<times> (error + unit)" where
  "insert_video_like l s =
     (if vl_id l \<in> set (map vl_id (video_likes (txn s)))
         \<or> (vl_user_id l, vl_video_id l) \<in> set (map (\<lambda>r. (vl_user_id r, vl_video_id r)) (video_likes (txn s)))
      then (rollback s, Inl (IntegrityError ''uq_video_like''))
      else (s\<lparr>txn := (txn s)\<lparr>video_likes := video_likes (txn s) @ [l]\<rparr>\<rparr>, Inr ()))"

definition insert_subscription :: "subscription \<Rightarrow> session \<Rightarrow> session \<times> (error + unit)" where
  "insert_subscription x s =
     (if sb_id x \<in> set (map sb_id (subscriptions (txn s)))
         \<or> (sb_subscriber_id x, sb_channel_id x)
             \<in> set (map (\<lambda>r. (sb_subscriber_id r, sb_channel_id r)) (subscriptions (txn s)))
      then (rollback s, Inl (IntegrityError ''uq_subscription''))
      else (s\<lparr>txn := (txn s)\<lparr>subscriptions := subscriptions (txn s) @ [x]\<rparr>\<rparr>, Inr ()))"

text \<open>\<^verbatim>\<open>db.delete(row)\<close> removes the row with the primary key of \<open>row\<close>.\<close>

definition delete_video_like :: "video_like \<Rightarrow> session \<Rightarrow> session" where
  "delete_video_like l s =
     s\<lparr>txn := (txn s)\<lparr>video_likes := filter (\<lambda>r. vl_id r \<noteq> vl_id l) (video_likes (txn s))\<rparr>\<rparr>"

definition delete_subscription :: "subscription \<Rightarrow> session \<Rightarrow> session" where
  "delete_subscription x s =
     s\<lparr>txn := (txn s)\<lparr>subscriptions := filter (\<lambda>r. sb_id r \<noteq> sb_id x) (subscriptions (txn s))\<rparr>\<rparr>"

subsection \<open>Authentication (main.py, get_current_user)\<close>

text \<open>
  \<open>decode_token\<close> returns the payload of a token, a dictionary, or raises. The
  dependency runs before the body of every protected handler.
\<close>

type_synonym token_decoder = "string \<Rightarrow> error + (string \<rightharpoonup> string)"

definition get_current_user :: "token_decoder \<Rightarrow> string \<Rightarrow> session \<Rightarrow> error + user" where
  "get_current_user decode_token token s =
     (case decode_token token of
        Inl e \<Rightarrow> Inl e
      | Inr payload \<Rightarrow>
          (case payload ''sub'' of
             None \<Rightarrow> Inl (HTTP_401 ''Invalid token'')
           | Some username \<Rightarrow>
               (case find (\<lambda>u. u_username u = username) (users (txn s)) of
                  None \<Rightarrow> Inl (HTTP_401 ''User not found'')
                | Some u \<Rightarrow> Inr u)))"

text \<open>A protected handler: \<^verbatim>\<open>current_user: models.User = Depends(get_current_user)\<close>.\<close>

definition protected ::
  "token_decoder \<Rightarrow> string \<Rightarrow> (user \<Rightarrow> session \<Rightarrow> session \<times> (error + 'a)) \<Rightarrow> session \<Rightarrow> session \<times> (error + 'a)" where
  "protected decode_token token handler s =
     (case get_current_user decode_token token s of
        Inl e \<Rightarrow> (s, Inl e)
      | Inr current_user \<Rightarrow> handler current_user s)"

subsection \<open>Registration (main.py, register)\<close>

text \<open>
  \<^verbatim>\<open>schemas.UserCreate\<close>. The framework checks the lengths (a username of 3 to 50
  characters, a password of at least 6) before it calls the handler; the handler itself
  does not depend on them.
\<close>

record UserCreate =
  uc_username :: string
  uc_password :: string

definition register ::
  "(string \<Rightarrow> string) \<Rightarrow> int \<Rightarrow> UserCreate \<Rightarrow> session \<Rightarrow> session \<times> (error + user)" where
  "register get_password_hash now user_in s =
     (case find (\<lambda>u. u_username u = uc_username user_in) (users (txn s)) of
        Some existing \<Rightarrow> (s, Inl (HTTP_400 ''Username already taken''))
      | None \<Rightarrow>
          (let new_user = \<lparr>u_id = next_id (map u_id (users (txn s))),
                           u_username = uc_username user_in,
                           u_password_hash = get_password_hash (uc_password user_in),
                           u_created_at = now\<rparr>
           in case insert_user new_user s of
                (s', Inl e) \<Rightarrow> (s', Inl e)
              | (s', Inr _) \<Rightarrow> (commit s', Inr new_user)))"

subsection \<open>Like toggle (main.py, like_video)\<close>

definition like_video :: "int \<Rightarrow> int \<Rightarrow> user \<Rightarrow> session \<Rightarrow> session \<times> (error + string)" where
  "like_video video_id now current_user s =
     (case find (\<lambda>v. v_id v = video_id) (videos (txn s)) of
        None \<Rightarrow> (s, Inl (HTTP_404 ''Video not found''))
      | Some video \<Rightarrow>
          (case find (\<lambda>l. vl_user_id l = u_id current_user \<and> vl_video_id l = v_id video)
                  (video_likes (txn s)) of
             Some existing_like \<Rightarrow> (commit (delete_video_like existing_like s), Inr ''Like removed'')
           | None \<Rightarrow>
               (let like = \<lparr>vl_id = next_id (map vl_id (video_likes (txn s))),
                            vl_user_id = u_id current_user,
                            vl_video_id = v_id video,
                            vl_created_at = now\<rparr>
                in case insert_video_like like s of
                     (s', Inl e) \<Rightarrow> (s', Inl e)
                   | (s', Inr _) \<Rightarrow> (commit s', Inr ''Video liked''))))"

subsection \<open>Subscription toggle (main.py, subscribe_user)\<close>

definition subscribe_user :: "int \<Rightarrow> int \<Rightarrow> user \<Rightarrow> session \<Rightarrow> session \<times> (error + string)" where
  "subscribe_user user_id now current_user s =
     (if u_id current_user = user_id
      then (s, Inl (HTTP_400 ''Cannot subscribe to yourself''))
      else
        (case find (\<lambda>u. u_id u = user_id) (users (txn s)) of
           None \<Rightarrow> (s, Inl (HTTP_404 ''User not found''))
         | Some channel \<Rightarrow>
             (case find (\<lambda>x. sb_subscriber_id x = u_id current_user \<and> sb_channel_id x = u_id channel)
                     (subscriptions (txn s)) of
                Some existing \<Rightarrow> (commit (delete_subscription existing s), Inr ''Unsubscribed'')
              | None \<Rightarrow>
                  (let subscription = \<lparr>sb_id = next_id (map sb_id (subscriptions (txn s))),
                                        sb_subscriber_id = u_id current_user,
                                        sb_channel_id = u_id channel,
                                        sb_created_at = now\<rparr>
                   in case insert_subscription subscription s of
                        (s', Inl e) \<Rightarrow> (s', Inl e)
                      | (s', Inr _) \<Rightarrow> (commit s', Inr ''Subscribed'')))))"

subsection \<open>Strings\<close>

text \<open>
  \<^verbatim>\<open>str.split(",")\<close>: the pieces between the commas; the empty string has one empty piece.
\<close>

fun split_comma :: "string \<Rightarrow> string list" where
  "split_comma [] = [[]]"
| "split_comma (c # cs) =
     (if c = CHR '','' then [] # split_comma cs
      else (case split_comma cs of
              [] \<Rightarrow> [[c]]
            | w # ws \<Rightarrow> (c # w) # ws))"

text \<open>
  The ASCII characters for which \<^verbatim>\<open>str.isspace\<close> holds: tab, line feed, vertical tab,
  form feed, carriage return, the four separators 28 to 31, and the space.
\<close>

definition is_space :: "char \<Rightarrow> bool" where
  "is_space c = (let n = (of_char c :: nat) in (9 \<le> n \<and> n \<le> 13) \<or> (28 \<le> n \<and> n \<le> 32))"

definition strip :: "string \<Rightarrow> string" where
  "strip g = rev (dropWhile is_space (rev (dropWhile is_space g)))"

definition lower_char :: "char \<Rightarrow> char" where
  "lower_char c =
     (let n = (of_char c :: nat) in if 65 \<le> n \<and> n \<le> 90 then char_of (n + 32) else c)"

text \<open>\<^verbatim>\<open>func.lower\<close> of the database and \<^verbatim>\<open>str.lower\<close> of Python, on ASCII text.\<close>

definition sql_lower :: "string \<Rightarrow> string" where
  "sql_lower x = map lower_char x"

definition py_lower :: "string \<Rightarrow> string" where
  "py_lower x = map lower_char x"

subsection \<open>Serialization (main.py, serialize_video)\<close>

record UserOut =
  uo_id :: int
  uo_username :: string
  uo_created_at :: int

record VideoOut =
  vo_id :: int
  vo_title :: string
  vo_description :: "string option"
  vo_filename :: string
  vo_created_at :: int
  vo_owner :: "UserOut option"
  vo_genres :: "genre list"
  vo_likes :: nat

text \<open>\<^verbatim>\<open>video.genres\<close>: the genres linked to the video through \<^verbatim>\<open>video_genre\<close>.\<close>

definition genres_of :: "db \<Rightarrow> video \<Rightarrow> genre list" where
  "genres_of d v =
     [g. vg \<leftarrow> video_genre d, fst vg = v_id v, g \<leftarrow> genres d, g_id g = snd vg]"

text \<open>\<^verbatim>\<open>video.owner\<close>: the user the foreign key \<^verbatim>\<open>owner_id\<close> points to.\<close>

definition owner_of :: "db \<Rightarrow> video \<Rightarrow> UserOut option" where
  "owner_of d v =
     map_option (\<lambda>u. \<lparr>uo_id = u_id u, uo_username = u_username u, uo_created_at = u_created_at u\<rparr>)
       (find (\<lambda>u. u_id u = v_owner_id v) (users d))"

text \<open>
  \<^verbatim>\<open>db.query(func.count(models.VideoLike.id)).filter(models.VideoLike.video_id == video.id).scalar() or 0\<close>
\<close>

definition count_likes :: "db \<Rightarrow> int \<Rightarrow> nat" where
  "count_likes d video_id = length (filter (\<lambda>l. vl_video_id l = video_id) (video_likes d))"

definition serialize_video :: "video \<Rightarrow> db \<Rightarrow> VideoOut" where
  "serialize_video video d =
     (let likes = count_likes d (v_id video)
      in \<lparr>vo_id = v_id video,
          vo_title = v_title video,
          vo_description = v_description video,
          vo_filename = v_filename video,
          vo_created_at = v_created_at video,
          vo_owner = owner_of d video,
          vo_genres = genres_of d video,
          vo_likes = likes\<rparr>)"

subsection \<open>Video upload (main.py, upload_video)\<close>

text \<open>
  \<^verbatim>\<open>genre_names = [g.strip() for g in genres.split(",") if g.strip()]\<close>, where
  \<open>genres_form\<close> is the form field \<^verbatim>\<open>genres\<close>.
\<close>

definition genre_names :: "string \<Rightarrow> string list" where
  "genre_names genres_form = map strip (filter (\<lambda>g. strip g \<noteq> []) (split_comma genres_form))"

text \<open>
  The loop over \<open>genre_names\<close>. The accumulator is \<^verbatim>\<open>video.genres\<close>, a Python list: each
  pass appends the genre it found or created, whether or not the list holds it already.
\<close>

fun collect_genres :: "string list \<Rightarrow> genre list \<Rightarrow> session \<Rightarrow> session \<times> (error + genre list)" where
  "collect_genres [] video_genres s = (s, Inr video_genres)"
| "collect_genres (name # names) video_genres s =
     (case find (\<lambda>g. sql_lower (g_name g) = py_lower name) (genres (txn s)) of
        Some genre \<Rightarrow> collect_genres names (video_genres @ [genre]) s
      | None \<Rightarrow>
          (let genre = \<lparr>g_id = next_id (map g_id (genres (txn s))), g_name = name\<rparr>
           in case insert_genre genre s of
                (s', Inl e) \<Rightarrow> (s', Inl e)
              | (s', Inr _) \<Rightarrow> collect_genres names (video_genres @ [genre]) s'))"

text \<open>
  The flush of the new video writes one row of \<^verbatim>\<open>video_genre\<close> for each element of
  \<^verbatim>\<open>video.genres\<close>; both columns of that table form its primary key.
\<close>

fun insert_links :: "(int \<times> int) list \<Rightarrow> session \<Rightarrow> session \<times> (error + unit)" where
  "insert_links [] s = (s, Inr ())"
| "insert_links (row # rows) s =
     (case insert_video_genre row s of
        (s', Inl e) \<Rightarrow> (s', Inl e)
      | (s', Inr _) \<Rightarrow> insert_links rows s')"

text \<open>
  \<open>filename\<close> is the generated storage name (a fresh UUID and the client's file name);
  the copy of the file to the upload directory is outside the model.
\<close>

definition upload_video ::
  "string \<Rightarrow> string option \<Rightarrow> string \<Rightarrow> string \<Rightarrow> int \<Rightarrow> user \<Rightarrow> session \<Rightarrow> session \<times> (error + VideoOut)" where
  "upload_video title description genres_form filename now current_user s =
     (case collect_genres (genre_names genres_form) [] s of
        (s1, Inl e) \<Rightarrow> (s1, Inl e)
      | (s1, Inr video_genres) \<Rightarrow>
          (let video = \<lparr>v_id = next_id (map v_id (videos (txn s1))),
                        v_title = title,
                        v_description = description,
                        v_filename = filename,
                        v_created_at = now,
                        v_owner_id = u_id current_user\<rparr>
           in case insert_video video s1 of
                (s2, Inl e) \<Rightarrow> (s2, Inl e)
              | (s2, Inr _) \<Rightarrow>
                  (case insert_links (map (\<lambda>g. (v_id video, g_id g)) video_genres) s2 of
                     (s3, Inl e) \<Rightarrow> (s3, Inl e)
                   | (s3, Inr _) \<Rightarrow>
                       (let s4 = commit s3 in (s4, Inr (serialize_video video (txn s4)))))))"

subsection \<open>Listing and retrieval (main.py, list_videos and get_video)\<close>

text \<open>
  \<^verbatim>\<open>order_by(created_at.desc()).offset(skip).limit(limit)\<close>. SQLite reads a negative
  limit as no limit and a negative offset as 0. Rows with equal keys keep the table's order.
\<close>

definition list_videos :: "int \<Rightarrow> int \<Rightarrow> session \<Rightarrow> session \<times> (error + VideoOut list)" where
  "list_videos skip limit s =
     (let ordered = sort_key (\<lambda>v. - v_created_at v) (videos (txn s));
          page = drop (nat skip) ordered;
          rows = (if limit < 0 then page else take (nat limit) page)
      in (s, Inr (map (\<lambda>video. serialize_video video (txn s)) rows)))"

definition get_video :: "int \<Rightarrow> session \<Rightarrow> session \<times> (error + VideoOut)" where
  "get_video video_id s =
     (case find (\<lambda>v. v_id v = video_id) (videos (txn s)) of
        None \<Rightarrow> (s, Inl (HTTP_404 ''Video not found''))
      | Some video \<Rightarrow> (s, Inr (serialize_video video (txn s))))"

subsection \<open>Comments (main.py, add_comment)\<close>

definition add_comment :: "int \<Rightarrow> string \<Rightarrow> int \<Rightarrow> user \<Rightarrow> session \<Rightarrow> session \<times> (error + comment)" where
  "add_comment video_id content now current_user s =
     (case find (\<lambda>v. v_id v = video_id) (videos (txn s)) of
        None \<Rightarrow> (s, Inl (HTTP_404 ''Video not found''))
      | Some video \<Rightarrow>
          (let new_comment = \<lparr>c_id = next_id (map c_id (comments (txn s))),
                              c_content = content,
                              c_created_at = now,
                              c_author_id = u_id current_user,
                              c_video_id = v_id video\<rparr>
           in case insert_comment new_comment s of
                (s', Inl e) \<Rightarrow> (s', Inl e)
              | (s', Inr _) \<Rightarrow> (commit s', Inr new_comment)))"

subsection \<open>Recommendations (main.py, get_recommendations)\<close>

text \<open>
  The first query: \<^verbatim>\<open>Genre\<close> joined with \<^verbatim>\<open>video_genre\<close>, \<^verbatim>\<open>Video\<close> and \<^verbatim>\<open>VideoLike\<close>,
  filtered on the user, \<^verbatim>\<open>distinct\<close>.
\<close>

definition liked_genre_ids :: "db \<Rightarrow> int \<Rightarrow> int list" where
  "liked_genre_ids d uid =
     remdups [g_id g.
        g \<leftarrow> genres d,
        vg \<leftarrow> video_genre d, g_id g = snd vg,
        v \<leftarrow> videos d, v_id v = fst vg,
        vl \<leftarrow> video_likes d, vl_video_id vl = v_id v,
        vl_user_id vl = uid]"

text \<open>
  The second query before grouping: \<^verbatim>\<open>Video\<close> joined with \<^verbatim>\<open>video_genre\<close> and \<^verbatim>\<open>Genre\<close>,
  with the two filters.
\<close>

definition candidate_rows :: "db \<Rightarrow> int list \<Rightarrow> int \<Rightarrow> (video \<times> genre) list" where
  "candidate_rows d liked uid =
     [(v, g).
        v \<leftarrow> videos d,
        vg \<leftarrow> video_genre d, v_id v = fst vg,
        g \<leftarrow> genres d, g_id g = snd vg,
        g_id g \<in> set liked,
        v_owner_id v \<noteq> uid]"

text \<open>
  \<^verbatim>\<open>group_by(Video.id)\<close> with \<^verbatim>\<open>func.count(Genre.id)\<close>: one result row for each video id
  among the joined rows, with the number of joined rows of that id.
\<close>

fun group_by_video :: "(video \<times> genre) list \<Rightarrow> (video \<times> nat) list" where
  "group_by_video [] = []"
| "group_by_video ((v, g) # rows) =
     (v, Suc (length (filter (\<lambda>r. v_id (fst r) = v_id v) rows)))
       # group_by_video (filter (\<lambda>r. v_id (fst r) \<noteq> v_id v) rows)"

text \<open>
  \<^verbatim>\<open>order_by(count.desc(), created_at.desc()).limit(20)\<close>. Rows that agree on both keys
  keep the order of the grouping, which SQL leaves open.
\<close>

definition ranked :: "db \<Rightarrow> int list \<Rightarrow> int \<Rightarrow> (video \<times> nat) list" where
  "ranked d liked uid =
     sort_key (\<lambda>(v, score). (- int score, - v_created_at v)) (group_by_video (candidate_rows d liked uid))"

definition get_recommendations :: "user \<Rightarrow> session \<Rightarrow> session \<times> (error + (VideoOut \<times> nat) list)" where
  "get_recommendations current_user s =
     (let liked = liked_genre_ids (txn s) (u_id current_user)
      in if liked = [] then (s, Inr [])
         else
           (let recommendations = take 20 (ranked (txn s) liked (u_id current_user))
            in (s, Inr (map (\<lambda>(video, score). (serialize_video video (txn s), score)) recommendations))))"

subsection \<open>Login and profile (main.py, login and read_users_me)\<close>

definition login ::
  "(string \<Rightarrow> string \<Rightarrow> bool) \<Rightarrow> (string \<Rightarrow> string) \<Rightarrow> string \<Rightarrow> string \<Rightarrow> session \<Rightarrow> session \<times> (error + string)" where
  "login verify_password create_access_token form_username form_password s =
     (case find (\<lambda>u. u_username u = form_username) (users (txn s)) of
        None \<Rightarrow> (s, Inl (HTTP_401 ''Incorrect username or password''))
      | Some u \<Rightarrow>
          (if \<not> verify_password form_password (u_password_hash u)
           then (s, Inl (HTTP_401 ''Incorrect username or password''))
           else (s, Inr (create_access_token (u_username u)))))"

definition read_users_me :: "user \<Rightarrow> session \<Rightarrow> session \<times> (error + user)" where
  "read_users_me current_user s = (s, Inr current_user)"

subsection \<open>The routes of the application\<close>

text \<open>
  The functions of \<^verbatim>\<open>app/security.py\<close> that the handlers call: they are inputs here.
  \<open>create_access_token\<close> receives the subject of the token.
\<close>

record security =
  decode_token :: token_decoder
  get_password_hash :: "string \<Rightarrow> string"
  verify_password :: "string \<Rightarrow> string \<Rightarrow> bool"
  create_access_token :: "string \<Rightarrow> string"

text \<open>
  One constructor for each route that main.py declares with \<^verbatim>\<open>@app.get\<close> or \<^verbatim>\<open>@app.post\<close>;
  a protected route carries the bearer token first.
\<close>

datatype request =
    Register UserCreate
  | Login string string
  | ReadUsersMe string
  | UploadVideo string string "string option" string string
  | ListVideos int int
  | GetVideo int
  | AddComment string int string
  | LikeVideo string int
  | SubscribeUser string int
  | GetRecommendations string

datatype response =
    UserResponse user
  | TokenResponse string
  | VideoResponse VideoOut
  | VideoListResponse "VideoOut list"
  | CommentResponse comment
  | DetailResponse string
  | RecommendationResponse "(VideoOut \<times> nat) list"

definition returning ::
  "('a \<Rightarrow> response) \<Rightarrow> (session \<Rightarrow> session \<times> (error + 'a)) \<Rightarrow> session \<Rightarrow> session \<times> (error + response)" where
  "returning f handler s = (case handler s of (s', r) \<Rightarrow> (s', map_sum id f r))"

fun route :: "security \<Rightarrow> int \<Rightarrow> request \<Rightarrow> session \<Rightarrow> session \<times> (error + response)" where
  "route sec now (Register user_in) =
     returning UserResponse (register (get_password_hash sec) now user_in)"
| "route sec now (Login form_username form_password) =
     returning TokenResponse (login (verify_password sec) (create_access_token sec) form_username form_password)"
| "route sec now (ReadUsersMe token) =
     returning UserResponse (protected (decode_token sec) token read_users_me)"
| "route sec now (UploadVideo token title description genres_form filename) =
     returning VideoResponse
       (protected (decode_token sec) token (upload_video title description genres_form filename now))"
| "route sec now (ListVideos skip limit) =
     returning VideoListResponse (list_videos skip limit)"
| "route sec now (GetVideo video_id) =
     returning VideoResponse (get_video video_id)"
| "route sec now (AddComment token video_id content) =
     returning CommentResponse (protected (decode_token sec) token (add_comment video_id content now))"
| "route sec now (LikeVideo token video_id) =
     returning DetailResponse (protected (decode_token sec) token (like_video video_id now))"
| "route sec now (SubscribeUser token user_id) =
     returning DetailResponse (protected (decode_token sec) token (subscribe_user user_id now))"
| "route sec now (GetRecommendations token) =
     returning RecommendationResponse (protected (decode_token sec) token get_recommendations)"

text \<open>A request served at time \<open>now\<close>, and a sequence of requests served one after the other.\<close>

definition serve :: "security \<Rightarrow> int \<Rightarrow> request \<Rightarrow> db \<Rightarrow> db \<times> (error + response)" where
  "serve sec now req d = run_request (route sec now req) d"

fun serve_all :: "security \<Rightarrow> (int \<times> request) list \<Rightarrow> db \<Rightarrow> db" where
  "serve_all sec [] d = d"
| "serve_all sec ((now, req) # reqs) d = serve_all sec reqs (fst (serve sec now req d))"

subsection \<open>Notions used in the properties\<close>

text \<open>The pairs \<open>(user_id, video_id)\<close> of the rows of \<^verbatim>\<open>video_likes\<close>.\<close>

definition like_pairs :: "db \<Rightarrow> (int \<times> int) set" where
  "like_pairs d = set (map (\<lambda>l. (vl_user_id l, vl_video_id l)) (video_likes d))"

text \<open>
  The constraints of \<^verbatim>\<open>VideoLike\<close>: the primary key \<^verbatim>\<open>id\<close> and the unique constraint
  \<^verbatim>\<open>uq_video_like\<close> on \<^verbatim>\<open>(user_id, video_id)\<close>.
\<close>

definition wf_likes :: "db \<Rightarrow> bool" where
  "wf_likes d \<longleftrightarrow> distinct (map vl_id (video_likes d))
     \<and> distinct (map (\<lambda>l. (vl_user_id l, vl_video_id l)) (video_likes d))"

text \<open>The same for \<^verbatim>\<open>Subscription\<close> and its unique constraint \<^verbatim>\<open>uq_subscription\<close>.\<close>

definition subscription_pairs :: "db \<Rightarrow> (int \<times> int) set" where
  "subscription_pairs d = set (map (\<lambda>x. (sb_subscriber_id x, sb_channel_id x)) (subscriptions d))"

definition wf_subscriptions :: "db \<Rightarrow> bool" where
  "wf_subscriptions d \<longleftrightarrow> distinct (map sb_id (subscriptions d))
     \<and> distinct (map (\<lambda>x. (sb_subscriber_id x, sb_channel_id x)) (subscriptions d))"


text \<open>The videos a response carries.\<close>

definition videos_of_response :: "response \<Rightarrow> VideoOut list" where
  "videos_of_response resp =
     (case resp of
        VideoResponse vo \<Rightarrow> [vo]
      | VideoListResponse vos \<Rightarrow> vos
      | RecommendationResponse recs \<Rightarrow> map fst recs
      | _ \<Rightarrow> [])"

subsection \<open>Example data\<close>

definition alice :: user where
  "alice = \<lparr>u_id = 1, u_username = ''alice'', u_password_hash = ''h1'', u_created_at = 0\<rparr>"

definition bob :: user where
  "bob = \<lparr>u_id = 2, u_username = ''bob'', u_password_hash = ''h2'', u_created_at = 1\<rparr>"

definition db_users :: db where
  "db_users = empty_db\<lparr>users := [alice, bob]\<rparr>"

definition clip :: video where
  "clip = \<lparr>v_id = 1, v_title = ''clip'', v_description = None, v_filename = ''k_clip.mp4'',
            v_created_at = 2, v_owner_id = 1\<rparr>"

definition db_liked :: db where
  "db_liked = db_users\<lparr>videos := [clip],
     video_likes := [\<lparr>vl_id = 1, vl_user_id = 2, vl_video_id = 1, vl_created_at = 3\<rparr>]\<rparr>"

text \<open>
  An instance of the functions of security.py: three tokens that decode, one of them to a
  payload without subject, and a token that does not.
\<close>

definition sec0 :: security where
  "sec0 = \<lparr>decode_token =
       (\<lambda>token. if token = ''token-alice'' then Inr [''sub'' \<mapsto> ''alice'']
                 else if token = ''token-bob'' then Inr [''sub'' \<mapsto> ''bob'']
                 else if token = ''token-without-sub'' then Inr Map.empty
                 else Inl (HTTP_401 ''Could not validate credentials'')),
     get_password_hash = (\<lambda>password. ''hash of '' @ password),
     verify_password = (\<lambda>password hash. hash = ''hash of '' @ password),
     create_access_token = (\<lambda>sub. ''token-'' @ sub)\<rparr>"

definition carol_in :: UserCreate where
  "carol_in = \<lparr>uc_username = ''carol'', uc_password = ''secret1''\<rparr>"

definition carol :: user where
  "carol = \<lparr>u_id = 3, u_username = ''carol'', u_password_hash = ''hash of secret1'', u_created_at = 5\<rparr>"

definition db_subscribed :: db where
  "db_subscribed = db_users\<lparr>subscriptions :=
     [\<lparr>sb_id = 1, sb_subscriber_id = 1, sb_channel_id = 2, sb_created_at = 4\<rparr>]\<rparr>"


text \<open>
  A database for the recommendations: bob likes the clip of alice, which has the genres
  Drama and Comedy; he owns video 2; videos 4 and 5 of alice and carol share genres with
  the clip, video 3 does not.
\<close>

definition db_recs :: db where
  "db_recs = db_users\<lparr>
     users := [alice, bob, carol],
     genres := [\<lparr>g_id = 1, g_name = ''Drama''\<rparr>, \<lparr>g_id = 2, g_name = ''Comedy''\<rparr>,
                \<lparr>g_id = 3, g_name = ''Horror''\<rparr>],
     videos := [clip,
                \<lparr>v_id = 2, v_title = ''own'', v_description = None, v_filename = ''k_own.mp4'',
                  v_created_at = 3, v_owner_id = 2\<rparr>,
                \<lparr>v_id = 3, v_title = ''scary'', v_description = None, v_filename = ''k_scary.mp4'',
                  v_created_at = 4, v_owner_id = 1\<rparr>,
                \<lparr>v_id = 4, v_title = ''sad'', v_description = None, v_filename = ''k_sad.mp4'',
                  v_created_at = 5, v_owner_id = 1\<rparr>,
                \<lparr>v_id = 5, v_title = ''mixed'', v_description = None, v_filename = ''k_mixed.mp4'',
                  v_created_at = 6, v_owner_id = 3\<rparr>],
     video_genre := [(1, 1), (1, 2), (2, 1), (3, 3), (4, 1), (5, 1), (5, 2)],
     video_likes := [\<lparr>vl_id = 1, vl_user_id = 2, vl_video_id = 1, vl_created_at = 7\<rparr>]\<rparr>"

section \<open>Properties\<close>

subsection \<open>Auxiliary facts\<close>

lemma fold_max_ge: "(y::int) \<in> set (x # xs) \<Longrightarrow> y \<le> fold max xs x"
  using Max_ge[of "set (x # xs)" y] by (simp only: Max.set_eq_fold[symmetric] List.finite_set)

lemma next_id_fresh: "next_id ids \<notin> set ids"
proof (cases ids)
  case Nil
  then show ?thesis by simp
next
  case (Cons x xs)
  show ?thesis
  proof
    assume "next_id ids \<in> set ids"
    then have "next_id ids \<le> fold max xs x"
      using Cons fold_max_ge by blast
    then show False
      by (simp add: next_id_def Cons)
  qed
qed

lemma find_None_iff_no_match: "find P xs = None \<longleftrightarrow> (\<forall>x\<in>set xs. \<not> P x)"
  by (induction xs) auto

lemma find_append_None: "find P xs = None \<Longrightarrow> find P (xs @ ys) = find P ys"
  by (induction xs) (auto split: if_splits)

lemma find_Some_member: "find P xs = Some x \<Longrightarrow> x \<in> set xs \<and> P x"
  by (induction xs) (auto split: if_splits)

lemmas session_defs = run_request_def get_db_def SessionLocal_def close_def commit_def rollback_def

lemma like_video_not_found:
  assumes "video_id \<notin> set (map v_id (videos d))"
  shows "run_request (like_video video_id now current_user) d = (d, Inl (HTTP_404 ''Video not found''))"
proof -
  have "find (\<lambda>v. v_id v = video_id) (videos d) = None"
    using assms by (auto simp: find_None_iff_no_match)
  then show ?thesis
    by (simp add: like_video_def session_defs)
qed

lemma like_video_insert:
  assumes v: "find (\<lambda>v. v_id v = video_id) (videos d) = Some video"
    and n: "(u_id current_user, video_id) \<notin> like_pairs d"
  shows "run_request (like_video video_id now current_user) d =
           (d\<lparr>video_likes := video_likes d @
                [\<lparr>vl_id = next_id (map vl_id (video_likes d)), vl_user_id = u_id current_user,
                  vl_video_id = video_id, vl_created_at = now\<rparr>]\<rparr>, Inr ''Video liked'')"
proof -
  have vid: "v_id video = video_id"
    using find_Some_member[OF v] by simp
  have "find (\<lambda>l. vl_user_id l = u_id current_user \<and> vl_video_id l = video_id) (video_likes d) = None"
    using n by (force simp: find_None_iff_no_match like_pairs_def)
  moreover have "next_id (map vl_id (video_likes d)) \<notin> vl_id ` set (video_likes d)"
    using next_id_fresh[of "map vl_id (video_likes d)"] by simp
  moreover have "(u_id current_user, video_id) \<notin> (\<lambda>r. (vl_user_id r, vl_video_id r)) ` set (video_likes d)"
    using n by (simp add: like_pairs_def)
  ultimately show ?thesis
    using v vid by (simp add: like_video_def session_defs insert_video_like_def Let_def)
qed

lemma like_video_delete:
  assumes v: "find (\<lambda>v. v_id v = video_id) (videos d) = Some video"
    and l: "find (\<lambda>l. vl_user_id l = u_id current_user \<and> vl_video_id l = video_id) (video_likes d) = Some existing_like"
  shows "run_request (like_video video_id now current_user) d =
           (d\<lparr>video_likes := filter (\<lambda>r. vl_id r \<noteq> vl_id existing_like) (video_likes d)\<rparr>, Inr ''Like removed'')"
proof -
  have vid: "v_id video = video_id"
    using find_Some_member[OF v] by simp
  show ?thesis
    using v l vid by (simp add: like_video_def session_defs delete_video_like_def)
qed


lemma distinct_map_eq: "distinct (map f xs) \<Longrightarrow> x \<in> set xs \<Longrightarrow> y \<in> set xs \<Longrightarrow> f x = f y \<Longrightarrow> x = y"
  by (meson distinct_map inj_on_eq_iff)

lemma filter_id_eq_filter_pair:
  assumes "wf_likes d" and "l \<in> set (video_likes d)"
  shows "filter (\<lambda>r. vl_id r \<noteq> vl_id l) (video_likes d)
       = filter (\<lambda>r. (vl_user_id r, vl_video_id r) \<noteq> (vl_user_id l, vl_video_id l)) (video_likes d)"
proof (rule filter_cong[OF refl])
  fix r assume r: "r \<in> set (video_likes d)"
  have a: "vl_id r = vl_id l \<Longrightarrow> r = l"
    using distinct_map_eq[of vl_id "video_likes d" r l] assms r by (simp add: wf_likes_def)
  have b: "(vl_user_id r, vl_video_id r) = (vl_user_id l, vl_video_id l) \<Longrightarrow> r = l"
    using distinct_map_eq[of "\<lambda>l. (vl_user_id l, vl_video_id l)" "video_likes d" r l] assms r
    by (simp add: wf_likes_def)
  show "(vl_id r \<noteq> vl_id l) = ((vl_user_id r, vl_video_id r) \<noteq> (vl_user_id l, vl_video_id l))"
    using a b by blast
qed

lemma video_exists_find:
  assumes "video_id \<in> set (map v_id (videos d))"
  shows "\<exists>video. find (\<lambda>v. v_id v = video_id) (videos d) = Some video"
proof (cases "find (\<lambda>v. v_id v = video_id) (videos d)")
  case None
  then show ?thesis using assms by (auto simp: find_None_iff_no_match)
qed simp

lemma like_video_remove:
  assumes wf: "wf_likes d"
    and ex: "video_id \<in> set (map v_id (videos d))"
    and liked: "(u_id current_user, video_id) \<in> like_pairs d"
  shows "run_request (like_video video_id now current_user) d =
           (d\<lparr>video_likes := filter (\<lambda>r. (vl_user_id r, vl_video_id r) \<noteq> (u_id current_user, video_id)) (video_likes d)\<rparr>,
            Inr ''Like removed'')"
proof -
  obtain video where v: "find (\<lambda>v. v_id v = video_id) (videos d) = Some video"
    using video_exists_find[OF ex] by blast
  let ?P = "\<lambda>l. vl_user_id l = u_id current_user \<and> vl_video_id l = video_id"
  have "find ?P (video_likes d) \<noteq> None"
    using liked by (auto simp: find_None_iff_no_match like_pairs_def)
  then obtain l where l: "find ?P (video_likes d) = Some l" by blast
  have lm: "l \<in> set (video_likes d)" and lp: "(vl_user_id l, vl_video_id l) = (u_id current_user, video_id)"
    using find_Some_member[OF l] by simp_all
  show ?thesis
    using like_video_delete[OF v l, of now] filter_id_eq_filter_pair[OF wf lm] lp by simp
qed

lemma like_pairs_filter:
  "like_pairs (d\<lparr>video_likes := filter (\<lambda>r. (vl_user_id r, vl_video_id r) \<noteq> p) (video_likes d)\<rparr>) = like_pairs d - {p}"
  by (auto simp: like_pairs_def)

lemma like_pairs_append:
  "like_pairs (d\<lparr>video_likes := video_likes d @ [l]\<rparr>) = insert (vl_user_id l, vl_video_id l) (like_pairs d)"
  by (auto simp: like_pairs_def)

subsection \<open>What a handler leaves committed\<close>

text \<open>
  Every handler either fails and leaves the committed database as it found it, or succeeds
  with everything it wrote committed.
\<close>

lemma collect_genres_persisted:
  "collect_genres names acc s = (s1, r) \<Longrightarrow> persisted s1 = persisted s"
proof (induction names arbitrary: acc s)
  case Nil
  then show ?case by simp
next
  case (Cons name names)
  show ?case
  proof (cases "find (\<lambda>g. sql_lower (g_name g) = py_lower name) (genres (txn s))")
    case (Some g)
    then show ?thesis using Cons by simp
  next
    case None
    let ?g = "\<lparr>g_id = next_id (map g_id (genres (txn s))), g_name = name\<rparr>"
    obtain s' r' where i: "insert_genre ?g s = (s', r')" by (cases "insert_genre ?g s")
    have p: "persisted s' = persisted s"
      using i by (auto simp: insert_genre_def rollback_def split: if_splits)
    show ?thesis
    proof (cases r')
      case (Inl e)
      then show ?thesis using Cons.prems None i p by (simp add: Let_def)
    next
      case (Inr u)
      then have "collect_genres names (acc @ [?g]) s' = (s1, r)"
        using Cons.prems None i by (simp add: Let_def)
      then show ?thesis using Cons.IH p by simp
    qed
  qed
qed

lemma insert_links_persisted:
  "insert_links rows s = (s1, r) \<Longrightarrow> persisted s1 = persisted s"
proof (induction rows arbitrary: s)
  case Nil
  then show ?case by simp
next
  case (Cons row rows)
  obtain s' r' where i: "insert_video_genre row s = (s', r')" by (cases "insert_video_genre row s")
  have p: "persisted s' = persisted s"
    using i by (auto simp: insert_video_genre_def rollback_def split: if_splits)
  show ?case
  proof (cases r')
    case (Inl e)
    then show ?thesis using Cons.prems i p by simp
  next
    case (Inr u)
    then show ?thesis using Cons i p by simp
  qed
qed

lemma register_atomic:
  "register h now user_in s = (s1, r) \<Longrightarrow>
     (case r of Inl _ \<Rightarrow> persisted s1 = persisted s | Inr _ \<Rightarrow> persisted s1 = txn s1)"
  by (auto simp: register_def insert_user_def commit_def rollback_def Let_def
      split: option.splits if_splits)

lemma login_atomic:
  "txn s = persisted s \<Longrightarrow> login vp cat n p s = (s1, r) \<Longrightarrow>
     (case r of Inl _ \<Rightarrow> persisted s1 = persisted s | Inr _ \<Rightarrow> persisted s1 = txn s1)"
  by (auto simp: login_def split: option.splits if_splits)

lemma upload_video_atomic:
  assumes "upload_video title description genres_form filename now cu s = (s1, r)"
  shows "case r of Inl _ \<Rightarrow> persisted s1 = persisted s | Inr _ \<Rightarrow> persisted s1 = txn s1"
proof -
  obtain sa ra where c: "collect_genres (genre_names genres_form) [] s = (sa, ra)"
    by (cases "collect_genres (genre_names genres_form) [] s")
  have pa: "persisted sa = persisted s" using collect_genres_persisted[OF c] .
  show ?thesis
  proof (cases ra)
    case (Inl e)
    then show ?thesis using assms c pa by (auto simp: upload_video_def)
  next
    case (Inr video_genres)
    let ?video = "\<lparr>v_id = next_id (map v_id (videos (txn sa))), v_title = title,
       v_description = description, v_filename = filename, v_created_at = now, v_owner_id = u_id cu\<rparr>"
    obtain sb rb where v: "insert_video ?video sa = (sb, rb)" by (cases "insert_video ?video sa")
    have pb: "persisted sb = persisted s"
      using v pa by (auto simp: insert_video_def rollback_def split: if_splits)
    show ?thesis
    proof (cases rb)
      case (Inl e)
      then show ?thesis using assms c Inr v pb by (auto simp: upload_video_def Let_def)
    next
      case rbR: (Inr u)
      obtain sc rc where l: "insert_links (map (\<lambda>g. (v_id ?video, g_id g)) video_genres) sb = (sc, rc)"
        by (cases "insert_links (map (\<lambda>g. (v_id ?video, g_id g)) video_genres) sb")
      have pc: "persisted sc = persisted s" using insert_links_persisted[OF l] pb by simp
      show ?thesis
      proof (cases rc)
        case (Inl e)
        then show ?thesis using assms c Inr v rbR l pc by (auto simp: upload_video_def Let_def)
      next
        case rcR: (Inr u')
        then show ?thesis using assms c Inr v rbR l by (auto simp: upload_video_def Let_def commit_def)
      qed
    qed
  qed
qed

lemma list_videos_atomic:
  "txn s = persisted s \<Longrightarrow> list_videos skip limit s = (s1, r) \<Longrightarrow>
     (case r of Inl _ \<Rightarrow> persisted s1 = persisted s | Inr _ \<Rightarrow> persisted s1 = txn s1)"
  by (auto simp: list_videos_def Let_def)

lemma get_video_atomic:
  "txn s = persisted s \<Longrightarrow> get_video video_id s = (s1, r) \<Longrightarrow>
     (case r of Inl _ \<Rightarrow> persisted s1 = persisted s | Inr _ \<Rightarrow> persisted s1 = txn s1)"
  by (auto simp: get_video_def split: option.splits)

lemma add_comment_atomic:
  "add_comment video_id content now cu s = (s1, r) \<Longrightarrow>
     (case r of Inl _ \<Rightarrow> persisted s1 = persisted s | Inr _ \<Rightarrow> persisted s1 = txn s1)"
  by (auto simp: add_comment_def insert_comment_def commit_def rollback_def Let_def
      split: option.splits if_splits)

lemma like_video_atomic:
  "like_video video_id now cu s = (s1, r) \<Longrightarrow>
     (case r of Inl _ \<Rightarrow> persisted s1 = persisted s | Inr _ \<Rightarrow> persisted s1 = txn s1)"
  by (auto simp: like_video_def insert_video_like_def delete_video_like_def commit_def rollback_def Let_def
      split: option.splits if_splits)

lemma subscribe_user_atomic:
  "subscribe_user user_id now cu s = (s1, r) \<Longrightarrow>
     (case r of Inl _ \<Rightarrow> persisted s1 = persisted s | Inr _ \<Rightarrow> persisted s1 = txn s1)"
  by (auto simp: subscribe_user_def insert_subscription_def delete_subscription_def commit_def
      rollback_def Let_def split: option.splits if_splits)

lemma get_recommendations_atomic:
  "txn s = persisted s \<Longrightarrow> get_recommendations cu s = (s1, r) \<Longrightarrow>
     (case r of Inl _ \<Rightarrow> persisted s1 = persisted s | Inr _ \<Rightarrow> persisted s1 = txn s1)"
  by (auto simp: get_recommendations_def Let_def split: if_splits)

lemma read_users_me_atomic:
  "txn s = persisted s \<Longrightarrow> read_users_me cu s = (s1, r) \<Longrightarrow>
     (case r of Inl _ \<Rightarrow> persisted s1 = persisted s | Inr _ \<Rightarrow> persisted s1 = txn s1)"
  by (auto simp: read_users_me_def)

lemma protected_atomic:
  assumes h: "\<And>cu s1 r. handler cu s = (s1, r) \<Longrightarrow>
        (case r of Inl _ \<Rightarrow> persisted s1 = persisted s | Inr _ \<Rightarrow> persisted s1 = txn s1)"
    and p: "protected dt token handler s = (s1, r)"
  shows "case r of Inl _ \<Rightarrow> persisted s1 = persisted s | Inr _ \<Rightarrow> persisted s1 = txn s1"
proof (cases "get_current_user dt token s")
  case (Inl e)
  then show ?thesis using p by (auto simp: protected_def)
next
  case (Inr cu)
  then show ?thesis using p h[of cu s1 r] by (simp add: protected_def)
qed

lemma returning_atomic:
  assumes h: "\<And>s1 r. handler s = (s1, r) \<Longrightarrow>
        (case r of Inl _ \<Rightarrow> persisted s1 = persisted s | Inr _ \<Rightarrow> persisted s1 = txn s1)"
    and p: "returning f handler s = (s1, r)"
  shows "case r of Inl _ \<Rightarrow> persisted s1 = persisted s | Inr _ \<Rightarrow> persisted s1 = txn s1"
proof -
  obtain s' r' where e: "handler s = (s', r')" by (cases "handler s")
  show ?thesis using h[OF e] p e by (cases r') (auto simp: returning_def)
qed

lemma route_atomic:
  assumes t: "txn s = persisted s" and p: "route sec now req s = (s1, r)"
  shows "case r of Inl _ \<Rightarrow> persisted s1 = persisted s | Inr _ \<Rightarrow> persisted s1 = txn s1"
proof (cases req)
  case (Register u)
  show ?thesis
    by (rule returning_atomic[OF _ p[unfolded Register route.simps]]) (rule register_atomic)
next
  case (Login n pw)
  show ?thesis
    by (rule returning_atomic[OF _ p[unfolded Login route.simps]]) (rule login_atomic[OF t])
next
  case (ReadUsersMe tok)
  show ?thesis
    by (rule returning_atomic[OF _ p[unfolded ReadUsersMe route.simps]], erule protected_atomic[rotated])
       (rule read_users_me_atomic[OF t])
next
  case (UploadVideo tok ti de ge fi)
  show ?thesis
    by (rule returning_atomic[OF _ p[unfolded UploadVideo route.simps]], erule protected_atomic[rotated])
       (rule upload_video_atomic)
next
  case (ListVideos sk li)
  show ?thesis
    by (rule returning_atomic[OF _ p[unfolded ListVideos route.simps]]) (rule list_videos_atomic[OF t])
next
  case (GetVideo vid)
  show ?thesis
    by (rule returning_atomic[OF _ p[unfolded GetVideo route.simps]]) (rule get_video_atomic[OF t])
next
  case (AddComment tok vid co)
  show ?thesis
    by (rule returning_atomic[OF _ p[unfolded AddComment route.simps]], erule protected_atomic[rotated])
       (rule add_comment_atomic)
next
  case (LikeVideo tok vid)
  show ?thesis
    by (rule returning_atomic[OF _ p[unfolded LikeVideo route.simps]], erule protected_atomic[rotated])
       (rule like_video_atomic)
next
  case (SubscribeUser tok uid)
  show ?thesis
    by (rule returning_atomic[OF _ p[unfolded SubscribeUser route.simps]], erule protected_atomic[rotated])
       (rule subscribe_user_atomic)
next
  case (GetRecommendations tok)
  show ?thesis
    by (rule returning_atomic[OF _ p[unfolded GetRecommendations route.simps]], erule protected_atomic[rotated])
       (rule get_recommendations_atomic[OF t])
qed


subsection \<open>No route removes or renames a user\<close>

lemma collect_genres_users:
  "collect_genres names acc s = (s1, r) \<Longrightarrow> users (txn s) = users (persisted s) \<Longrightarrow>
     users (txn s1) = users (persisted s)"
proof (induction names arbitrary: acc s)
  case Nil
  then show ?case by simp
next
  case (Cons name names)
  show ?case
  proof (cases "find (\<lambda>g. sql_lower (g_name g) = py_lower name) (genres (txn s))")
    case (Some g)
    then show ?thesis using Cons by simp
  next
    case None
    let ?g = "\<lparr>g_id = next_id (map g_id (genres (txn s))), g_name = name\<rparr>"
    obtain s' r' where i: "insert_genre ?g s = (s', r')" by (cases "insert_genre ?g s")
    have p: "persisted s' = persisted s" "users (txn s') = users (persisted s)"
      using i Cons.prems(2) by (auto simp: insert_genre_def rollback_def split: if_splits)
    show ?thesis
    proof (cases r')
      case (Inl e)
      then show ?thesis using Cons.prems None i p by (auto simp: Let_def)
    next
      case (Inr u)
      then have "collect_genres names (acc @ [?g]) s' = (s1, r)"
        using Cons.prems None i by (simp add: Let_def)
      then show ?thesis using Cons.IH[of _ s'] p by simp
    qed
  qed
qed

lemma insert_links_users:
  "insert_links rows s = (s1, r) \<Longrightarrow> users (txn s) = users (persisted s) \<Longrightarrow>
     users (txn s1) = users (persisted s)"
proof (induction rows arbitrary: s)
  case Nil
  then show ?case by simp
next
  case (Cons row rows)
  obtain s' r' where i: "insert_video_genre row s = (s', r')" by (cases "insert_video_genre row s")
  have p: "persisted s' = persisted s" "users (txn s') = users (persisted s)"
    using i Cons.prems(2) by (auto simp: insert_video_genre_def rollback_def split: if_splits)
  show ?case
  proof (cases r')
    case (Inl e)
    then show ?thesis using Cons.prems i p by auto
  next
    case (Inr u)
    then show ?thesis using Cons.prems Cons.IH[of s'] i p by simp
  qed
qed

lemma upload_video_users:
  assumes "upload_video title description genres_form filename now cu s = (s1, r)"
    and t: "txn s = persisted s"
  shows "users (persisted s1) = users (persisted s)"
proof (cases r)
  case (Inl e)
  then show ?thesis using upload_video_atomic[OF assms(1)] by simp
next
  case (Inr vo)
  obtain sa ra where c: "collect_genres (genre_names genres_form) [] s = (sa, ra)"
    by (cases "collect_genres (genre_names genres_form) [] s")
  have ua: "users (txn sa) = users (persisted s)" and pa: "persisted sa = persisted s"
    using collect_genres_users[OF c] collect_genres_persisted[OF c] t by simp_all
  obtain video_genres where ra: "ra = Inr video_genres"
    using assms(1) c Inr by (cases ra) (auto simp: upload_video_def)
  let ?video = "\<lparr>v_id = next_id (map v_id (videos (txn sa))), v_title = title,
       v_description = description, v_filename = filename, v_created_at = now, v_owner_id = u_id cu\<rparr>"
  obtain sb rb where v: "insert_video ?video sa = (sb, rb)" by (cases "insert_video ?video sa")
  have rb: "rb = Inr ()"
    using assms(1) c ra v Inr by (cases rb) (auto simp: upload_video_def Let_def)
  have ub: "users (txn sb) = users (persisted sb)" and pb: "persisted sb = persisted s"
    using v ua pa by (auto simp: insert_video_def rollback_def split: if_splits)
  obtain sc rc where l: "insert_links (map (\<lambda>g. (v_id ?video, g_id g)) video_genres) sb = (sc, rc)"
    by (cases "insert_links (map (\<lambda>g. (v_id ?video, g_id g)) video_genres) sb")
  have uc: "users (txn sc) = users (persisted s)"
    using insert_links_users[OF l ub] pb by simp
  have "s1 = commit sc"
    using assms(1) c ra v rb l Inr by (cases rc) (auto simp: upload_video_def Let_def)
  then show ?thesis using uc by (simp add: commit_def)
qed

lemma route_users:
  assumes t: "txn s = persisted s" and p: "route sec now req s = (s1, r)"
  shows "users (persisted s1) = users (persisted s) \<or> (\<exists>u. users (persisted s1) = users (persisted s) @ [u])"
proof (cases req)
  case (Register u)
  then show ?thesis using p t
    by (auto simp: returning_def register_def insert_user_def commit_def rollback_def Let_def
        split: option.splits if_splits)
next
  case (Login n pw)
  then show ?thesis using p
    by (auto simp: returning_def login_def split: option.splits if_splits)
next
  case (ReadUsersMe tok)
  then show ?thesis using p
    by (auto simp: returning_def protected_def read_users_me_def split: sum.splits)
next
  case (UploadVideo tok ti de ge fi)
  show ?thesis
  proof (cases "get_current_user (decode_token sec) tok s")
    case (Inl e)
    then show ?thesis using p UploadVideo by (auto simp: returning_def protected_def)
  next
    case (Inr cu)
    obtain s' r' where u: "upload_video ti de ge fi now cu s = (s', r')"
      by (cases "upload_video ti de ge fi now cu s")
    have "s1 = s'" using p UploadVideo Inr u by (auto simp: returning_def protected_def)
    then show ?thesis using upload_video_users[OF u t] by simp
  qed
next
  case (ListVideos sk li)
  then show ?thesis using p by (auto simp: returning_def list_videos_def Let_def)
next
  case (GetVideo vid)
  then show ?thesis using p by (auto simp: returning_def get_video_def split: option.splits)
next
  case (AddComment tok vid co)
  then show ?thesis using p t
    by (auto simp: returning_def protected_def add_comment_def insert_comment_def commit_def
        rollback_def Let_def split: sum.splits option.splits if_splits)
next
  case (LikeVideo tok vid)
  then show ?thesis using p t
    by (auto simp: returning_def protected_def like_video_def insert_video_like_def
        delete_video_like_def commit_def rollback_def Let_def split: sum.splits option.splits if_splits)
next
  case (SubscribeUser tok uid)
  then show ?thesis using p t
    by (auto simp: returning_def protected_def subscribe_user_def insert_subscription_def
        delete_subscription_def commit_def rollback_def Let_def split: sum.splits option.splits if_splits)
next
  case (GetRecommendations tok)
  then show ?thesis using p
    by (auto simp: returning_def protected_def get_recommendations_def Let_def split: sum.splits if_splits)
qed

lemma serve_usernames:
  "set (map u_username (users d)) \<subseteq> set (map u_username (users (fst (serve sec now req d))))"
proof -
  obtain s1 r where e: "route sec now req (SessionLocal d) = (s1, r)"
    by (cases "route sec now req (SessionLocal d)")
  have "txn (SessionLocal d) = persisted (SessionLocal d)" by (simp add: SessionLocal_def)
  from route_users[OF this e]
  have "users (persisted s1) = users d \<or> (\<exists>u. users (persisted s1) = users d @ [u])"
    by (simp add: SessionLocal_def)
  moreover have "fst (serve sec now req d) = persisted s1"
    using e by (simp add: serve_def run_request_def get_db_def close_def)
  ultimately show ?thesis by auto
qed

lemma serve_all_usernames:
  "set (map u_username (users d)) \<subseteq> set (map u_username (users (serve_all sec reqs d)))"
proof (induction reqs arbitrary: d)
  case Nil
  then show ?case by simp
next
  case (Cons a reqs)
  obtain now req where a: "a = (now, req)" by (cases a)
  show ?case
    using serve_usernames[of d sec now req] Cons[of "fst (serve sec now req d)"] a by auto
qed

lemma register_taken:
  assumes "uc_username user_in \<in> set (map u_username (users d))"
  shows "run_request (register h now user_in) d = (d, Inl (HTTP_400 ''Username already taken''))"
proof -
  have "find (\<lambda>u. u_username u = uc_username user_in) (users d) \<noteq> None"
    using assms by (auto simp: find_None_iff_no_match)
  then show ?thesis
    by (auto simp: register_def session_defs)
qed

lemma register_new:
  assumes "uc_username user_in \<notin> set (map u_username (users d))"
  shows "run_request (register h now user_in) d =
    (d\<lparr>users := users d @ [\<lparr>u_id = next_id (map u_id (users d)), u_username = uc_username user_in,
        u_password_hash = h (uc_password user_in), u_created_at = now\<rparr>]\<rparr>,
     Inr \<lparr>u_id = next_id (map u_id (users d)), u_username = uc_username user_in,
        u_password_hash = h (uc_password user_in), u_created_at = now\<rparr>)"
proof -
  have "find (\<lambda>u. u_username u = uc_username user_in) (users d) = None"
    using assms by (force simp: find_None_iff_no_match)
  moreover have "next_id (map u_id (users d)) \<notin> u_id ` set (users d)"
    using next_id_fresh[of "map u_id (users d)"] by simp
  moreover have "uc_username user_in \<notin> u_username ` set (users d)"
    using assms by simp
  ultimately show ?thesis
    by (simp add: register_def session_defs insert_user_def Let_def)
qed


subsection \<open>Facts about the subscription toggle\<close>

lemma protected_run_request:
  "run_request (protected dt token handler) d =
     (case get_current_user dt token (SessionLocal d) of
        Inl e \<Rightarrow> (d, Inl e)
      | Inr cu \<Rightarrow> run_request (handler cu) d)"
  by (simp add: protected_def session_defs split: sum.splits)

lemma subscribe_self:
  "u_id cu = user_id \<Longrightarrow>
     run_request (subscribe_user user_id now cu) d = (d, Inl (HTTP_400 ''Cannot subscribe to yourself''))"
  by (simp add: subscribe_user_def session_defs)

lemma user_exists_find:
  assumes "user_id \<in> set (map u_id (users d))"
  shows "\<exists>channel. find (\<lambda>u. u_id u = user_id) (users d) = Some channel \<and> u_id channel = user_id"
proof (cases "find (\<lambda>u. u_id u = user_id) (users d)")
  case None
  then show ?thesis using assms by (auto simp: find_None_iff_no_match)
next
  case (Some a)
  then show ?thesis using find_Some_member[OF Some] by simp
qed

lemma filter_sb_id_eq_filter_pair:
  assumes "wf_subscriptions d" and "x \<in> set (subscriptions d)"
  shows "filter (\<lambda>r. sb_id r \<noteq> sb_id x) (subscriptions d)
       = filter (\<lambda>r. (sb_subscriber_id r, sb_channel_id r) \<noteq> (sb_subscriber_id x, sb_channel_id x)) (subscriptions d)"
proof (rule filter_cong[OF refl])
  fix r assume r: "r \<in> set (subscriptions d)"
  have a: "sb_id r = sb_id x \<Longrightarrow> r = x"
    using distinct_map_eq[of sb_id "subscriptions d" r x] assms r by (simp add: wf_subscriptions_def)
  have b: "(sb_subscriber_id r, sb_channel_id r) = (sb_subscriber_id x, sb_channel_id x) \<Longrightarrow> r = x"
    using distinct_map_eq[of "\<lambda>x. (sb_subscriber_id x, sb_channel_id x)" "subscriptions d" r x] assms r
    by (simp add: wf_subscriptions_def)
  show "(sb_id r \<noteq> sb_id x) = ((sb_subscriber_id r, sb_channel_id r) \<noteq> (sb_subscriber_id x, sb_channel_id x))"
    using a b by blast
qed

lemma subscribe_remove:
  assumes wf: "wf_subscriptions d"
    and other: "u_id cu \<noteq> user_id"
    and ex: "user_id \<in> set (map u_id (users d))"
    and sub: "(u_id cu, user_id) \<in> subscription_pairs d"
  shows "run_request (subscribe_user user_id now cu) d =
           (d\<lparr>subscriptions := filter (\<lambda>r. (sb_subscriber_id r, sb_channel_id r) \<noteq> (u_id cu, user_id)) (subscriptions d)\<rparr>,
            Inr ''Unsubscribed'')"
proof -
  obtain channel where c: "find (\<lambda>u. u_id u = user_id) (users d) = Some channel" and cid: "u_id channel = user_id"
    using user_exists_find[OF ex] by blast
  let ?P = "\<lambda>x. sb_subscriber_id x = u_id cu \<and> sb_channel_id x = user_id"
  have "find ?P (subscriptions d) \<noteq> None"
    using sub by (auto simp: find_None_iff_no_match subscription_pairs_def)
  then obtain x where x: "find ?P (subscriptions d) = Some x" by blast
  have xm: "x \<in> set (subscriptions d)" and xp: "(sb_subscriber_id x, sb_channel_id x) = (u_id cu, user_id)"
    using find_Some_member[OF x] by simp_all
  have "run_request (subscribe_user user_id now cu) d =
      (d\<lparr>subscriptions := filter (\<lambda>r. sb_id r \<noteq> sb_id x) (subscriptions d)\<rparr>, Inr ''Unsubscribed'')"
    using other c cid x by (simp add: subscribe_user_def session_defs delete_subscription_def)
  then show ?thesis
    using filter_sb_id_eq_filter_pair[OF wf xm] xp by simp
qed

lemma subscribe_insert:
  assumes other: "u_id cu \<noteq> user_id"
    and ex: "user_id \<in> set (map u_id (users d))"
    and nsub: "(u_id cu, user_id) \<notin> subscription_pairs d"
  shows "run_request (subscribe_user user_id now cu) d =
           (d\<lparr>subscriptions := subscriptions d @
                [\<lparr>sb_id = next_id (map sb_id (subscriptions d)), sb_subscriber_id = u_id cu,
                  sb_channel_id = user_id, sb_created_at = now\<rparr>]\<rparr>, Inr ''Subscribed'')"
proof -
  obtain channel where c: "find (\<lambda>u. u_id u = user_id) (users d) = Some channel" and cid: "u_id channel = user_id"
    using user_exists_find[OF ex] by blast
  have "find (\<lambda>x. sb_subscriber_id x = u_id cu \<and> sb_channel_id x = user_id) (subscriptions d) = None"
    using nsub by (force simp: find_None_iff_no_match subscription_pairs_def)
  moreover have "next_id (map sb_id (subscriptions d)) \<notin> sb_id ` set (subscriptions d)"
    using next_id_fresh[of "map sb_id (subscriptions d)"] by simp
  moreover have "(u_id cu, user_id) \<notin> (\<lambda>r. (sb_subscriber_id r, sb_channel_id r)) ` set (subscriptions d)"
    using nsub by (simp add: subscription_pairs_def)
  ultimately show ?thesis
    using other c cid by (simp add: subscribe_user_def session_defs insert_subscription_def Let_def)
qed

subsection \<open>C4: the like toggle\<close>

text \<open>
  Claim C4, as amended. On a table \<^verbatim>\<open>video_likes\<close> that satisfies its primary key and its
  unique constraint, for every user and every video id: the like operation fails with
  not-found, leaving the database as it is, when no video has that id; when a row for the
  pair (user, video) exists, all rows of that pair are deleted and the message is
  "Like removed"; otherwise one row for the pair is inserted, with the next free id and
  the current time, and the message is "Video liked". Applying the operation twice in
  succession to an existing video leaves the set of liked pairs and every other table
  unchanged, and it restores the whole database when the pair was not liked before.
\<close>

theorem like_video_toggle:
  assumes wf: "wf_likes d"
  shows
    "(video_id \<notin> set (map v_id (videos d)) \<longrightarrow>
        run_request (like_video video_id now current_user) d = (d, Inl (HTTP_404 ''Video not found'')))
   \<and> (video_id \<in> set (map v_id (videos d)) \<and> (u_id current_user, video_id) \<in> like_pairs d \<longrightarrow>
        run_request (like_video video_id now current_user) d =
          (d\<lparr>video_likes := filter (\<lambda>r. (vl_user_id r, vl_video_id r) \<noteq> (u_id current_user, video_id)) (video_likes d)\<rparr>,
           Inr ''Like removed''))
   \<and> (video_id \<in> set (map v_id (videos d)) \<and> (u_id current_user, video_id) \<notin> like_pairs d \<longrightarrow>
        run_request (like_video video_id now current_user) d =
          (d\<lparr>video_likes := video_likes d @
               [\<lparr>vl_id = next_id (map vl_id (video_likes d)), vl_user_id = u_id current_user,
                 vl_video_id = video_id, vl_created_at = now\<rparr>]\<rparr>,
           Inr ''Video liked''))
   \<and> (video_id \<in> set (map v_id (videos d)) \<longrightarrow>
        (let d2 = fst (run_request (like_video video_id now' current_user)
                        (fst (run_request (like_video video_id now current_user) d)))
         in like_pairs d2 = like_pairs d \<and> d2\<lparr>video_likes := video_likes d\<rparr> = d
            \<and> ((u_id current_user, video_id) \<notin> like_pairs d \<longrightarrow> d2 = d)))"
proof (intro conjI impI)
  assume "video_id \<notin> set (map v_id (videos d))"
  then show "run_request (like_video video_id now current_user) d = (d, Inl (HTTP_404 ''Video not found''))"
    by (rule like_video_not_found)
next
  assume "video_id \<in> set (map v_id (videos d)) \<and> (u_id current_user, video_id) \<in> like_pairs d"
  then show "run_request (like_video video_id now current_user) d =
          (d\<lparr>video_likes := filter (\<lambda>r. (vl_user_id r, vl_video_id r) \<noteq> (u_id current_user, video_id)) (video_likes d)\<rparr>,
           Inr ''Like removed'')"
    using like_video_remove[OF wf] by blast
next
  assume a: "video_id \<in> set (map v_id (videos d)) \<and> (u_id current_user, video_id) \<notin> like_pairs d"
  then obtain video where "find (\<lambda>v. v_id v = video_id) (videos d) = Some video"
    using video_exists_find by blast
  then show "run_request (like_video video_id now current_user) d =
          (d\<lparr>video_likes := video_likes d @
               [\<lparr>vl_id = next_id (map vl_id (video_likes d)), vl_user_id = u_id current_user,
                 vl_video_id = video_id, vl_created_at = now\<rparr>]\<rparr>,
           Inr ''Video liked'')"
    using a like_video_insert by blast
next
  assume ex: "video_id \<in> set (map v_id (videos d))"
  obtain video where v: "find (\<lambda>v. v_id v = video_id) (videos d) = Some video"
    using video_exists_find[OF ex] by blast
  let ?p = "(u_id current_user, video_id)"
  let ?d2 = "fst (run_request (like_video video_id now' current_user)
                        (fst (run_request (like_video video_id now current_user) d)))"
  have "like_pairs ?d2 = like_pairs d \<and> ?d2\<lparr>video_likes := video_likes d\<rparr> = d
            \<and> (?p \<notin> like_pairs d \<longrightarrow> ?d2 = d)"
  proof (cases "?p \<in> like_pairs d")
    case True
    let ?d1 = "d\<lparr>video_likes := filter (\<lambda>r. (vl_user_id r, vl_video_id r) \<noteq> ?p) (video_likes d)\<rparr>"
    have 1: "run_request (like_video video_id now current_user) d = (?d1, Inr ''Like removed'')"
      using like_video_remove[OF wf ex True] .
    have n1: "?p \<notin> like_pairs ?d1"
      by (simp only: like_pairs_filter) simp
    have v1: "find (\<lambda>v. v_id v = video_id) (videos ?d1) = Some video"
      using v by simp
    have 2: "run_request (like_video video_id now' current_user) ?d1 =
           (?d1\<lparr>video_likes := video_likes ?d1 @
                [\<lparr>vl_id = next_id (map vl_id (video_likes ?d1)), vl_user_id = u_id current_user,
                  vl_video_id = video_id, vl_created_at = now'\<rparr>]\<rparr>, Inr ''Video liked'')"
      using like_video_insert[OF v1 n1] .
    have "like_pairs ?d2 = insert ?p (like_pairs d - {?p})"
      unfolding 1 fst_conv 2 like_pairs_append like_pairs_filter by simp
    then have "like_pairs ?d2 = like_pairs d"
      using True by auto
    moreover have "?d2\<lparr>video_likes := video_likes d\<rparr> = d"
      unfolding 1 fst_conv 2 by simp
    ultimately show ?thesis using True by simp
  next
    case False
    let ?new = "\<lparr>vl_id = next_id (map vl_id (video_likes d)), vl_user_id = u_id current_user,
                  vl_video_id = video_id, vl_created_at = now\<rparr>"
    let ?d1 = "d\<lparr>video_likes := video_likes d @ [?new]\<rparr>"
    have 1: "run_request (like_video video_id now current_user) d = (?d1, Inr ''Video liked'')"
      using like_video_insert[OF v False] .
    have v1: "find (\<lambda>v. v_id v = video_id) (videos ?d1) = Some video"
      using v by simp
    have none: "find (\<lambda>l. vl_user_id l = u_id current_user \<and> vl_video_id l = video_id) (video_likes d) = None"
      using False by (force simp: find_None_iff_no_match like_pairs_def)
    have l1: "find (\<lambda>l. vl_user_id l = u_id current_user \<and> vl_video_id l = video_id) (video_likes ?d1) = Some ?new"
      using none by (simp add: find_append_None)
    have fresh: "\<forall>r\<in>set (video_likes d). vl_id r \<noteq> next_id (map vl_id (video_likes d))"
      using next_id_fresh[of "map vl_id (video_likes d)"] by (metis image_eqI list.set_map)
    have 2: "run_request (like_video video_id now' current_user) ?d1 =
           (?d1\<lparr>video_likes := filter (\<lambda>r. vl_id r \<noteq> vl_id ?new) (video_likes ?d1)\<rparr>, Inr ''Like removed'')"
      using like_video_delete[OF v1 l1] .
    have "filter (\<lambda>r. vl_id r \<noteq> vl_id ?new) (video_likes ?d1) = video_likes d"
      using fresh by (simp add: filter_id_conv)
    then have "?d2 = d"
      unfolding 1 fst_conv 2 by simp
    then show ?thesis by simp
  qed
  then show "let d2 = ?d2 in like_pairs d2 = like_pairs d \<and> d2\<lparr>video_likes := video_likes d\<rparr> = d
            \<and> (?p \<notin> like_pairs d \<longrightarrow> d2 = d)"
    by (simp add: Let_def)
qed



text \<open>
  The theorem at work on \<open>db_liked\<close>: bob, who likes the clip, toggles twice; a video that
  does not exist; alice, who does not like the clip, toggles twice.
\<close>

theorem like_video_toggle_witness:
  "wf_likes db_liked
   \<and> run_request (like_video 1 6 bob) db_liked = (db_liked\<lparr>video_likes := []\<rparr>, Inr ''Like removed'')
   \<and> like_pairs (fst (run_request (like_video 1 7 bob) (fst (run_request (like_video 1 6 bob) db_liked))))
       = like_pairs db_liked
   \<and> run_request (like_video 5 6 bob) db_liked = (db_liked, Inl (HTTP_404 ''Video not found''))
   \<and> fst (run_request (like_video 1 7 alice) (fst (run_request (like_video 1 6 alice) db_liked))) = db_liked"
proof -
  have wf: "wf_likes db_liked" by code_simp
  have ex: "1 \<in> set (map v_id (videos db_liked))" by code_simp
  have nex: "5 \<notin> set (map v_id (videos db_liked))" by code_simp
  have liked: "(u_id bob, 1) \<in> like_pairs db_liked" by code_simp
  have nliked: "(u_id alice, 1) \<notin> like_pairs db_liked" by code_simp
  have f: "db_liked\<lparr>video_likes := filter (\<lambda>r. (vl_user_id r, vl_video_id r) \<noteq> (u_id bob, 1)) (video_likes db_liked)\<rparr>
       = db_liked\<lparr>video_likes := []\<rparr>" by code_simp
  note b = like_video_toggle[OF wf, where video_id = 1 and current_user = bob and now = 6 and now' = 7,
      unfolded Let_def]
  note n = like_video_toggle[OF wf, where video_id = 5 and current_user = bob and now = 6 and now' = 7]
  note a = like_video_toggle[OF wf, where video_id = 1 and current_user = alice and now = 6 and now' = 7,
      unfolded Let_def]
  have 1: "run_request (like_video 1 6 bob) db_liked = (db_liked\<lparr>video_likes := []\<rparr>, Inr ''Like removed'')"
    using b ex liked unfolding f by blast
  have 2: "like_pairs (fst (run_request (like_video 1 7 bob) (fst (run_request (like_video 1 6 bob) db_liked))))
       = like_pairs db_liked"
    using b ex by blast
  have 3: "run_request (like_video 5 6 bob) db_liked = (db_liked, Inl (HTTP_404 ''Video not found''))"
    using n nex by blast
  have 4: "fst (run_request (like_video 1 7 alice) (fst (run_request (like_video 1 6 alice) db_liked))) = db_liked"
    using a ex nliked by blast
  show ?thesis
    using wf 1 2 3 4 by blast
qed


text \<open>
  C4 as first stated fails where a like exists: the second call inserts a new row, whose
  \<^verbatim>\<open>created_at\<close> is the time of that call, so the set of rows is not the one before.
\<close>

theorem like_twice_rows_counterexample:
  "set (video_likes (fst (run_request (like_video 1 7 bob) (fst (run_request (like_video 1 6 bob) db_liked)))))
     \<noteq> set (video_likes db_liked)"
  by code_simp

subsection \<open>Facts about the genre loop and the link rows\<close>





subsection \<open>C3: genre names that differ in letter case only\<close>



subsection \<open>C5: subscribing to oneself\<close>

text \<open>
  Claim C5, as amended. The subscribe operation resolves the caller first: a request whose
  token does not resolve to a user fails with the error of that check (unauthorized),
  whatever the target, and changes nothing. For a caller who is authenticated, a target
  user id equal to the caller's own id gives the bad-request error and changes nothing;
  for any other existing target user the operation toggles the subscription of the pair
  (subscriber, channel): the rows of the pair are deleted with "Unsubscribed" when there
  is one, and one row is inserted with "Subscribed" otherwise.
\<close>

theorem subscribe_user_checks:
  "(\<forall>e. get_current_user dt token (SessionLocal d) = Inl e \<longrightarrow>
       run_request (protected dt token (subscribe_user user_id now)) d = (d, Inl e))
   \<and> (\<forall>cu. get_current_user dt token (SessionLocal d) = Inr cu \<and> u_id cu = user_id \<longrightarrow>
       run_request (protected dt token (subscribe_user user_id now)) d
         = (d, Inl (HTTP_400 ''Cannot subscribe to yourself'')))
   \<and> (\<forall>cu. get_current_user dt token (SessionLocal d) = Inr cu \<and> u_id cu \<noteq> user_id
          \<and> user_id \<in> set (map u_id (users d)) \<and> wf_subscriptions d \<longrightarrow>
       run_request (protected dt token (subscribe_user user_id now)) d
         = (if (u_id cu, user_id) \<in> subscription_pairs d
            then (d\<lparr>subscriptions :=
                      filter (\<lambda>r. (sb_subscriber_id r, sb_channel_id r) \<noteq> (u_id cu, user_id)) (subscriptions d)\<rparr>,
                  Inr ''Unsubscribed'')
            else (d\<lparr>subscriptions := subscriptions d @
                      [\<lparr>sb_id = next_id (map sb_id (subscriptions d)), sb_subscriber_id = u_id cu,
                        sb_channel_id = user_id, sb_created_at = now\<rparr>]\<rparr>,
                  Inr ''Subscribed'')))"
  by (auto simp: protected_run_request subscribe_self subscribe_remove subscribe_insert)


text \<open>
  The theorem at work on \<open>db_subscribed\<close>: a token that does not decode; alice on herself;
  alice on bob, whom she follows; bob on alice, whom he does not follow.
\<close>

theorem subscribe_user_checks_witness:
  "run_request (protected (decode_token sec0) ''expired'' (subscribe_user 1 5)) db_subscribed
     = (db_subscribed, Inl (HTTP_401 ''Could not validate credentials''))
   \<and> run_request (protected (decode_token sec0) ''token-alice'' (subscribe_user 1 5)) db_subscribed
     = (db_subscribed, Inl (HTTP_400 ''Cannot subscribe to yourself''))
   \<and> run_request (protected (decode_token sec0) ''token-alice'' (subscribe_user 2 5)) db_subscribed
     = (db_subscribed\<lparr>subscriptions := []\<rparr>, Inr ''Unsubscribed'')
   \<and> run_request (protected (decode_token sec0) ''token-bob'' (subscribe_user 1 5)) db_subscribed
     = (db_subscribed\<lparr>subscriptions :=
          [\<lparr>sb_id = 1, sb_subscriber_id = 1, sb_channel_id = 2, sb_created_at = 4\<rparr>,
           \<lparr>sb_id = 2, sb_subscriber_id = 2, sb_channel_id = 1, sb_created_at = 5\<rparr>]\<rparr>, Inr ''Subscribed'')"
proof -
  have e: "get_current_user (decode_token sec0) ''expired'' (SessionLocal db_subscribed)
      = Inl (HTTP_401 ''Could not validate credentials'')"
    by code_simp
  have a: "get_current_user (decode_token sec0) ''token-alice'' (SessionLocal db_subscribed) = Inr alice"
    by code_simp
  have b: "get_current_user (decode_token sec0) ''token-bob'' (SessionLocal db_subscribed) = Inr bob"
    by code_simp
  have ida: "u_id alice = 1" and idb: "u_id bob = 2" by (simp_all add: alice_def bob_def)
  have wf: "wf_subscriptions db_subscribed" by code_simp
  have ex: "2 \<in> set (map u_id (users db_subscribed))" "1 \<in> set (map u_id (users db_subscribed))"
    by code_simp+
  have pa: "(u_id alice, 2) \<in> subscription_pairs db_subscribed" by code_simp
  have pb: "(u_id bob, 1) \<notin> subscription_pairs db_subscribed" by code_simp
  have fa: "db_subscribed\<lparr>subscriptions :=
       filter (\<lambda>r. (sb_subscriber_id r, sb_channel_id r) \<noteq> (u_id alice, 2)) (subscriptions db_subscribed)\<rparr>
     = db_subscribed\<lparr>subscriptions := []\<rparr>" by code_simp
  have fb: "db_subscribed\<lparr>subscriptions := subscriptions db_subscribed @
                      [\<lparr>sb_id = next_id (map sb_id (subscriptions db_subscribed)), sb_subscriber_id = u_id bob,
                        sb_channel_id = 1, sb_created_at = 5\<rparr>]\<rparr>
     = db_subscribed\<lparr>subscriptions :=
          [\<lparr>sb_id = 1, sb_subscriber_id = 1, sb_channel_id = 2, sb_created_at = 4\<rparr>,
           \<lparr>sb_id = 2, sb_subscriber_id = 2, sb_channel_id = 1, sb_created_at = 5\<rparr>]\<rparr>" by code_simp
  note t1 = subscribe_user_checks[where dt = "decode_token sec0" and token = "''expired''" and d = db_subscribed
      and user_id = 1 and now = 5]
  note t2 = subscribe_user_checks[where dt = "decode_token sec0" and token = "''token-alice''" and d = db_subscribed
      and user_id = 1 and now = 5]
  note t3 = subscribe_user_checks[where dt = "decode_token sec0" and token = "''token-alice''" and d = db_subscribed
      and user_id = 2 and now = 5]
  note t4 = subscribe_user_checks[where dt = "decode_token sec0" and token = "''token-bob''" and d = db_subscribed
      and user_id = 1 and now = 5]
  have 1: "run_request (protected (decode_token sec0) ''expired'' (subscribe_user 1 5)) db_subscribed
     = (db_subscribed, Inl (HTTP_401 ''Could not validate credentials''))"
    using t1 e by blast
  have 2: "run_request (protected (decode_token sec0) ''token-alice'' (subscribe_user 1 5)) db_subscribed
     = (db_subscribed, Inl (HTTP_400 ''Cannot subscribe to yourself''))"
    using t2 a ida by blast
  have nea: "u_id alice \<noteq> 2" and neb: "u_id bob \<noteq> 1" by (simp_all add: alice_def bob_def)
  have 3: "run_request (protected (decode_token sec0) ''token-alice'' (subscribe_user 2 5)) db_subscribed
     = (db_subscribed\<lparr>subscriptions := []\<rparr>, Inr ''Unsubscribed'')"
  proof -
    have "run_request (protected (decode_token sec0) ''token-alice'' (subscribe_user 2 5)) db_subscribed
         = (if (u_id alice, 2) \<in> subscription_pairs db_subscribed
            then (db_subscribed\<lparr>subscriptions :=
                      filter (\<lambda>r. (sb_subscriber_id r, sb_channel_id r) \<noteq> (u_id alice, 2)) (subscriptions db_subscribed)\<rparr>,
                  Inr ''Unsubscribed'')
            else (db_subscribed\<lparr>subscriptions := subscriptions db_subscribed @
                      [\<lparr>sb_id = next_id (map sb_id (subscriptions db_subscribed)), sb_subscriber_id = u_id alice,
                        sb_channel_id = 2, sb_created_at = 5\<rparr>]\<rparr>,
                  Inr ''Subscribed''))"
      using t3 a nea ex wf by blast
    then show ?thesis by (simp only: pa if_True fa)
  qed
  have 4: "run_request (protected (decode_token sec0) ''token-bob'' (subscribe_user 1 5)) db_subscribed
     = (db_subscribed\<lparr>subscriptions :=
          [\<lparr>sb_id = 1, sb_subscriber_id = 1, sb_channel_id = 2, sb_created_at = 4\<rparr>,
           \<lparr>sb_id = 2, sb_subscriber_id = 2, sb_channel_id = 1, sb_created_at = 5\<rparr>]\<rparr>, Inr ''Subscribed'')"
  proof -
    have "run_request (protected (decode_token sec0) ''token-bob'' (subscribe_user 1 5)) db_subscribed
         = (if (u_id bob, 1) \<in> subscription_pairs db_subscribed
            then (db_subscribed\<lparr>subscriptions :=
                      filter (\<lambda>r. (sb_subscriber_id r, sb_channel_id r) \<noteq> (u_id bob, 1)) (subscriptions db_subscribed)\<rparr>,
                  Inr ''Unsubscribed'')
            else (db_subscribed\<lparr>subscriptions := subscriptions db_subscribed @
                      [\<lparr>sb_id = next_id (map sb_id (subscriptions db_subscribed)), sb_subscriber_id = u_id bob,
                        sb_channel_id = 1, sb_created_at = 5\<rparr>]\<rparr>,
                  Inr ''Subscribed''))"
      using t4 b neb ex wf by blast
    then show ?thesis by (simp only: pb if_False fb)
  qed
  show ?thesis using 1 2 3 4 by blast
qed


text \<open>
  C5 as first stated fails for a request without valid authentication: alice (id 1) posts
  to \<^verbatim>\<open>/users/1/subscribe\<close> with a token whose payload has no subject, and the answer is
  the unauthorized error of \<open>get_current_user\<close>, not the bad-request error.
\<close>

theorem subscribe_self_unauthenticated_counterexample:
  "run_request (protected (decode_token sec0) ''token-without-sub'' (subscribe_user 1 5)) db_users
     = (db_users, Inl (HTTP_401 ''Invalid token''))
   \<and> run_request (protected (decode_token sec0) ''token-without-sub'' (subscribe_user 1 5)) db_users
     \<noteq> (db_users, Inl (HTTP_400 ''Cannot subscribe to yourself''))"
  by code_simp

subsection \<open>C6: registering a username twice\<close>

text \<open>
  Claim C6. A registration with a username that no user has yet succeeds and appends the
  new user, with that name and the hash of the password; after it, and after any
  sequence of further requests, every registration with the same username fails with
  the bad-request error and leaves the database, hence the users, unchanged.
\<close>

theorem register_first_then_taken:
  assumes first: "uc_username user_in \<notin> set (map u_username (users d))"
  shows "\<exists>new_user.
           run_request (register h now user_in) d = (d\<lparr>users := users d @ [new_user]\<rparr>, Inr new_user)
         \<and> u_username new_user = uc_username user_in
         \<and> u_password_hash new_user = h (uc_password user_in)
         \<and> (\<forall>sec reqs again h' now'.
               uc_username again = uc_username user_in \<longrightarrow>
               (let d' = serve_all sec reqs (d\<lparr>users := users d @ [new_user]\<rparr>)
                in run_request (register h' now' again) d' = (d', Inl (HTTP_400 ''Username already taken''))))"
proof -
  let ?u = "\<lparr>u_id = next_id (map u_id (users d)), u_username = uc_username user_in,
        u_password_hash = h (uc_password user_in), u_created_at = now\<rparr>"
  let ?d1 = "d\<lparr>users := users d @ [?u]\<rparr>"
  have later: "run_request (register h' now' again) (serve_all sec reqs ?d1)
      = (serve_all sec reqs ?d1, Inl (HTTP_400 ''Username already taken''))"
    if "uc_username again = uc_username user_in" for sec reqs again h' now'
  proof (rule register_taken)
    have "uc_username user_in \<in> set (map u_username (users ?d1))" by simp
    then show "uc_username again \<in> set (map u_username (users (serve_all sec reqs ?d1)))"
      using serve_all_usernames[of ?d1 sec reqs] that by auto
  qed
  show ?thesis
    by (rule exI[of _ ?u]) (simp add: register_new[OF first] later Let_def)
qed


text \<open>The theorem at work: carol registers, two other requests follow, carol registers again.\<close>

theorem register_first_then_taken_witness:
  "uc_username carol_in \<notin> set (map u_username (users db_users))
   \<and> run_request (register (get_password_hash sec0) 5 carol_in) db_users
       = (db_users\<lparr>users := [alice, bob, carol]\<rparr>, Inr carol)
   \<and> run_request (register (get_password_hash sec0) 8 (carol_in\<lparr>uc_password := ''other-password''\<rparr>))
        (serve_all sec0 [(6, SubscribeUser ''token-alice'' 3), (7, ListVideos 0 20)]
           (db_users\<lparr>users := [alice, bob, carol]\<rparr>))
       = (serve_all sec0 [(6, SubscribeUser ''token-alice'' 3), (7, ListVideos 0 20)]
           (db_users\<lparr>users := [alice, bob, carol]\<rparr>),
          Inl (HTTP_400 ''Username already taken''))"
proof -
  have first: "uc_username carol_in \<notin> set (map u_username (users db_users))"
    by code_simp
  have run: "run_request (register (get_password_hash sec0) 5 carol_in) db_users
       = (db_users\<lparr>users := [alice, bob, carol]\<rparr>, Inr carol)"
    by code_simp
  have us: "users db_users @ [carol] = [alice, bob, carol]"
    by (simp add: db_users_def empty_db_def)
  obtain new_user where
    1: "run_request (register (get_password_hash sec0) 5 carol_in) db_users
          = (db_users\<lparr>users := users db_users @ [new_user]\<rparr>, Inr new_user)"
    and 2: "\<forall>sec reqs again h' now'.
               uc_username again = uc_username carol_in \<longrightarrow>
               (let d' = serve_all sec reqs (db_users\<lparr>users := users db_users @ [new_user]\<rparr>)
                in run_request (register h' now' again) d' = (d', Inl (HTTP_400 ''Username already taken'')))"
    using register_first_then_taken[OF first, of "get_password_hash sec0" 5] by blast
  have n: "new_user = carol"
    using 1 run by simp
  have same: "uc_username (carol_in\<lparr>uc_password := ''other-password''\<rparr>) = uc_username carol_in"
    by simp
  show ?thesis
    using first run 2[unfolded n us Let_def, rule_format, OF same] by blast
qed

subsection \<open>C7: the transaction of a request\<close>




subsection \<open>Facts about the genres field and uploads without genres\<close>





lemma concat_map_if: "concat (map (\<lambda>x. if P x then f x else []) xs) = concat (map f (filter P xs))"
  by (induction xs) simp_all

lemma concat_map_if_single: "concat (map (\<lambda>x. if P x then [f x] else []) xs) = map f (filter P xs)"
  by (induction xs) simp_all

lemma genres_of_alt:
  "genres_of d v = concat (map (\<lambda>vg. filter (\<lambda>g. g_id g = snd vg) (genres d))
                             (filter (\<lambda>vg. fst vg = v_id v) (video_genre d)))"
  unfolding genres_of_def concat_map_if concat_map_if_single by simp


subsection \<open>C10: an upload without genre names\<close>



subsection \<open>Facts about the recommendation query\<close>

lemma candidate_rows_per_genre:
  "concat (map (\<lambda>g. if g_id g = k then if g_id g \<in> L then if own then [(v, g)] else [] else [] else []) gs)
     = (if own then map (Pair v) (filter (\<lambda>g. g_id g \<in> L) (filter (\<lambda>g. g_id g = k) gs)) else [])"
  by (induction gs) auto

lemma candidate_rows_per_video:
  "concat (map (\<lambda>vg. if v_id v = fst vg
                  then concat (map (\<lambda>g. if g_id g = snd vg then if g_id g \<in> L then if own then [(v, g)] else [] else [] else []) gs)
                  else []) vgs)
     = (if own
        then map (Pair v) (filter (\<lambda>g. g_id g \<in> L)
               (concat (map (\<lambda>vg. filter (\<lambda>g. g_id g = snd vg) gs) (filter (\<lambda>vg. fst vg = v_id v) vgs))))
        else [])"
  by (induction vgs) (auto simp: candidate_rows_per_genre)

lemma candidate_rows_alt:
  "candidate_rows d liked uid =
     concat (map (\<lambda>v. if v_owner_id v \<noteq> uid
                       then map (Pair v) (filter (\<lambda>g. g_id g \<in> set liked) (genres_of d v))
                       else []) (videos d))"
  unfolding candidate_rows_def genres_of_alt
  by (simp add: candidate_rows_per_video[where own = "v_owner_id _ \<noteq> uid", simplified])


lemma group_by_video_sound:
  "(v, n) \<in> set (group_by_video rows) \<Longrightarrow>
     (\<exists>g. (v, g) \<in> set rows) \<and> n = length (filter (\<lambda>r. v_id (fst r) = v_id v) rows)"
proof (induction rows arbitrary: v n rule: group_by_video.induct)
  case 1
  then show ?case by simp
next
  case (2 v0 g0 rows)
  let ?rest = "filter (\<lambda>r. v_id (fst r) \<noteq> v_id v0) rows"
  from "2.prems" consider
    (head) "v = v0" "n = Suc (length (filter (\<lambda>r. v_id (fst r) = v_id v0) rows))"
    | (tail) "(v, n) \<in> set (group_by_video ?rest)"
    by auto
  then show ?case
  proof cases
    case head
    then show ?thesis by auto
  next
    case tail
    from "2.IH"[OF tail] obtain g where g: "(v, g) \<in> set ?rest"
      and n: "n = length (filter (\<lambda>r. v_id (fst r) = v_id v) ?rest)"
      by blast
    have ne: "v_id v \<noteq> v_id v0" using g by auto
    have "filter (\<lambda>r. v_id (fst r) = v_id v) ?rest = filter (\<lambda>r. v_id (fst r) = v_id v) rows"
      using ne by (auto intro: filter_cong)
    then show ?thesis using g n ne by auto
  qed
qed

lemma group_by_video_complete:
  "(v, g) \<in> set rows \<Longrightarrow> \<exists>v' n. (v', n) \<in> set (group_by_video rows) \<and> v_id v' = v_id v"
proof (induction rows arbitrary: v g rule: group_by_video.induct)
  case 1
  then show ?case by simp
next
  case (2 v0 g0 rows)
  show ?case
  proof (cases "v_id v = v_id v0")
    case True
    then show ?thesis by (intro exI[of _ v0]) auto
  next
    case False
    then have "(v, g) \<in> set (filter (\<lambda>r. v_id (fst r) \<noteq> v_id v0) rows)"
      using "2.prems" by auto
    from "2.IH"[OF this] show ?thesis by auto
  qed
qed

lemma rows_of_video:
  assumes "distinct (map v_id vs)" and "v \<in> set vs" and "\<And>v'. \<forall>r\<in>set (G v'). fst r = v'"
  shows "filter (\<lambda>r. v_id (fst r) = v_id v) (concat (map G vs)) = G v"
  using assms(1,2)
proof (induction vs)
  case Nil
  then show ?case by simp
next
  case (Cons a vs)
  have all: "filter (\<lambda>r. v_id (fst r) = v_id v') (G v') = G v'" for v'
    using assms(3)[of v'] by (simp add: filter_id_conv)
  have none: "filter (\<lambda>r. v_id (fst r) = v_id v) (G v') = []" if "v_id v' \<noteq> v_id v" for v'
    using assms(3)[of v'] that by (simp add: filter_empty_conv)
  show ?case
  proof (cases "v = a")
    case True
    have "\<forall>v'\<in>set vs. v_id v' \<noteq> v_id v"
      using Cons.prems(1) True by (metis distinct.simps(2) image_eqI list.simps(9) list.set_map)
    then have "filter (\<lambda>r. v_id (fst r) = v_id v) (concat (map G vs)) = []"
      using none by (induction vs) auto
    then show ?thesis using True all by simp
  next
    case False
    then have "v \<in> set vs" using Cons.prems by simp
    moreover have "v_id a \<noteq> v_id v" using Cons.prems(1) \<open>v \<in> set vs\<close> by force
    ultimately show ?thesis using Cons none by simp
  qed
qed

lemma candidate_rows_member:
  "(v, g) \<in> set (candidate_rows d liked uid) \<longleftrightarrow>
     v \<in> set (videos d) \<and> v_owner_id v \<noteq> uid \<and> g \<in> set (genres_of d v) \<and> g_id g \<in> set liked"
  by (auto simp: candidate_rows_alt)

lemma candidate_rows_count:
  assumes "distinct (map v_id (videos d))" and "v \<in> set (videos d)" and "v_owner_id v \<noteq> uid"
  shows "length (filter (\<lambda>r. v_id (fst r) = v_id v) (candidate_rows d liked uid))
       = length (filter (\<lambda>g. g_id g \<in> set liked) (genres_of d v))"
proof -
  let ?G = "\<lambda>v. if v_owner_id v \<noteq> uid
                 then map (Pair v) (filter (\<lambda>g. g_id g \<in> set liked) (genres_of d v)) else []"
  have "filter (\<lambda>r. v_id (fst r) = v_id v) (concat (map ?G (videos d))) = ?G v"
    by (rule rows_of_video[OF assms(1,2)]) auto
  then show ?thesis
    using assms(3) by (simp add: candidate_rows_alt)
qed

lemma ranked_set: "set (ranked d liked uid) = set (group_by_video (candidate_rows d liked uid))"
  by (simp add: ranked_def)

lemma ranked_member:
  assumes "distinct (map v_id (videos d))" and "(v, score) \<in> set (ranked d liked uid)"
  shows "v \<in> set (videos d) \<and> v_owner_id v \<noteq> uid
       \<and> score = length (filter (\<lambda>g. g_id g \<in> set liked) (genres_of d v))"
proof -
  from assms(2) have m: "(v, score) \<in> set (group_by_video (candidate_rows d liked uid))"
    by (simp add: ranked_set)
  from group_by_video_sound[OF m] obtain g where
    g: "(v, g) \<in> set (candidate_rows d liked uid)"
    and n: "score = length (filter (\<lambda>r. v_id (fst r) = v_id v) (candidate_rows d liked uid))"
    by blast
  have v: "v \<in> set (videos d)" "v_owner_id v \<noteq> uid"
    using g by (simp_all add: candidate_rows_member)
  show ?thesis
    using v n candidate_rows_count[OF assms(1) v] by simp
qed



lemma get_recommendations_run:
  "run_request (get_recommendations cu) d =
     (d, Inr (if liked_genre_ids d (u_id cu) = [] then []
              else map (\<lambda>(video, score). (serialize_video video d, score))
                     (take 20 (ranked d (liked_genre_ids d (u_id cu)) (u_id cu)))))"
  by (simp add: get_recommendations_def session_defs Let_def)


lemma vo_of_serialize [simp]:
  "vo_genres (serialize_video v d) = genres_of d v"
  "vo_created_at (serialize_video v d) = v_created_at v"
  "vo_id (serialize_video v d) = v_id v"
  "vo_likes (serialize_video v d) = count_likes d (v_id v)"
  by (simp_all add: serialize_video_def)

lemma upload_video_result:
  "upload_video title description genres_form filename now cu s = (s1, Inr vo) \<Longrightarrow>
     \<exists>video. vo = serialize_video video (txn s1)"
  by (auto simp: upload_video_def Let_def split: prod.splits sum.splits)

lemma returning_Inr:
  "returning f handler s = (s1, Inr resp) \<Longrightarrow> \<exists>x. handler s = (s1, Inr x) \<and> resp = f x"
  by (cases "handler s"; cases "snd (handler s)") (auto simp: returning_def)

lemma route_likes:
  assumes p: "route sec now req s = (s1, Inr resp)" and vo: "vo \<in> set (videos_of_response resp)"
  shows "vo_likes vo = count_likes (txn s1) (vo_id vo)"
proof (cases req)
  case (Register u)
  show ?thesis
    using returning_Inr[OF p[unfolded Register route.simps]] vo by (auto simp: videos_of_response_def)
next
  case (Login n pw)
  show ?thesis
    using returning_Inr[OF p[unfolded Login route.simps]] vo by (auto simp: videos_of_response_def)
next
  case (ReadUsersMe tok)
  show ?thesis
    using returning_Inr[OF p[unfolded ReadUsersMe route.simps]] vo by (auto simp: videos_of_response_def)
next
  case (UploadVideo tok ti de ge fi)
  obtain s' r' where h: "protected (decode_token sec) tok (upload_video ti de ge fi now) s = (s', r')"
    by (cases "protected (decode_token sec) tok (upload_video ti de ge fi now) s")
  from p UploadVideo h obtain x where x: "r' = Inr x" "resp = VideoResponse x" "s' = s1"
    by (cases r') (auto simp: returning_def)
  from h x obtain cu where "upload_video ti de ge fi now cu s = (s1, Inr x)"
    by (auto simp: protected_def split: sum.splits)
  from upload_video_result[OF this] obtain video where "x = serialize_video video (txn s1)"
    by blast
  then show ?thesis using vo x by (simp add: videos_of_response_def)
next
  case (ListVideos sk li)
  then show ?thesis using p vo
    by (auto simp: returning_def videos_of_response_def list_videos_def Let_def split: if_splits)
next
  case (GetVideo vid)
  then show ?thesis using p vo
    by (auto simp: returning_def videos_of_response_def get_video_def split: option.splits)
next
  case (AddComment tok vid co)
  show ?thesis
    using returning_Inr[OF p[unfolded AddComment route.simps]] vo by (auto simp: videos_of_response_def)
next
  case (LikeVideo tok vid)
  show ?thesis
    using returning_Inr[OF p[unfolded LikeVideo route.simps]] vo by (auto simp: videos_of_response_def)
next
  case (SubscribeUser tok uid)
  show ?thesis
    using returning_Inr[OF p[unfolded SubscribeUser route.simps]] vo by (auto simp: videos_of_response_def)
next
  case (GetRecommendations tok)
  then show ?thesis using p vo
    by (auto simp: returning_def videos_of_response_def protected_def get_recommendations_def Let_def
        split: sum.splits if_splits)
qed

lemma run_recommendations_bob:
  "run_request (get_recommendations bob) db_recs
     = (db_recs, Inr (projr (snd (run_request (get_recommendations bob) db_recs))))"
  by (simp add: get_recommendations_run)

subsection \<open>C1: the recommendations\<close>



subsection \<open>C9: scores are positive\<close>

text \<open>
  Claim C9. The recommendations operation always returns, and every entry of its result
  has a score of at least 1 and a video with a genre among the liked genre ids of the
  caller: a video with no such genre does not appear.
\<close>

theorem recommendation_score_positive:
  "\<exists>recs.
      run_request (get_recommendations current_user) d = (d, Inr recs)
    \<and> (\<forall>(vo, score)\<in>set recs.
          1 \<le> score
        \<and> (\<exists>g\<in>set (vo_genres vo). g_id g \<in> set (liked_genre_ids d (u_id current_user))))"
proof -
  let ?uid = "u_id current_user"
  let ?liked = "liked_genre_ids d ?uid"
  let ?recs = "if ?liked = [] then []
               else map (\<lambda>(video, score). (serialize_video video d, score)) (take 20 (ranked d ?liked ?uid))"
  have pos: "1 \<le> score \<and> (\<exists>g\<in>set (genres_of d v). g_id g \<in> set ?liked)"
    if "(v, score) \<in> set (take 20 (ranked d ?liked ?uid))" for v score
  proof -
    have m: "(v, score) \<in> set (group_by_video (candidate_rows d ?liked ?uid))"
      using that by (metis in_set_takeD ranked_set)
    from group_by_video_sound[OF m] obtain g where
      g: "(v, g) \<in> set (candidate_rows d ?liked ?uid)"
      and n: "score = length (filter (\<lambda>r. v_id (fst r) = v_id v) (candidate_rows d ?liked ?uid))"
      by blast
    have "filter (\<lambda>r. v_id (fst r) = v_id v) (candidate_rows d ?liked ?uid) \<noteq> []"
      using g by (force simp: filter_empty_conv)
    then have "1 \<le> score"
      using n by (simp add: Suc_leI)
    then show ?thesis
      using g by (auto simp: candidate_rows_member)
  qed
  have "\<forall>(vo, score)\<in>set ?recs.
          1 \<le> score \<and> (\<exists>g\<in>set (vo_genres vo). g_id g \<in> set ?liked)"
    using pos by (auto split: if_splits)
  then show ?thesis
    using get_recommendations_run[of current_user d] by blast
qed

text \<open>The theorem at work: the scores and the genre ids of the videos that bob gets.\<close>

theorem recommendation_score_positive_witness:
  "\<exists>recs. run_request (get_recommendations bob) db_recs = (db_recs, Inr recs)
      \<and> map snd recs = [2, 2, 1]
      \<and> map (\<lambda>(vo, score). map g_id (vo_genres vo)) recs = [[1, 2], [1, 2], [1]]"
proof -
  obtain recs where run: "run_request (get_recommendations bob) db_recs = (db_recs, Inr recs)"
    using recommendation_score_positive[of bob db_recs] by (elim exE conjE) (rule that; assumption)
  have r: "recs = projr (snd (run_request (get_recommendations bob) db_recs))"
    using run by simp
  have ev: "map snd (projr (snd (run_request (get_recommendations bob) db_recs))) = [2, 2, 1]"
    "map (\<lambda>(vo, score). map g_id (vo_genres vo)) (projr (snd (run_request (get_recommendations bob) db_recs)))
       = [[1, 2], [1, 2], [1]]"
    by code_simp+
  show ?thesis
    by (intro conjI exI[of _ recs]) (rule run ev[folded r])+
qed

subsection \<open>C2: which videos are ranked\<close>

text \<open>
  Claim C2, as amended. On a database whose video ids are distinct, the recommendations
  operation ranks the videos that the user does not own, whether or not the user has
  liked them: every returned video belongs to another user, and every video of
  another user that has a genre among the liked genre ids is returned when at most 20
  videos are ranked.
\<close>

theorem recommendations_keep_liked_videos:
  assumes pk: "distinct (map v_id (videos d))"
  shows "\<exists>recs.
      run_request (get_recommendations current_user) d = (d, Inr recs)
    \<and> (\<forall>(vo, score)\<in>set recs.
          \<exists>v\<in>set (videos d). vo = serialize_video v d \<and> v_owner_id v \<noteq> u_id current_user)
    \<and> (\<forall>v\<in>set (videos d).
          v_owner_id v \<noteq> u_id current_user
          \<and> (\<exists>g\<in>set (genres_of d v). g_id g \<in> set (liked_genre_ids d (u_id current_user)))
          \<and> length (ranked d (liked_genre_ids d (u_id current_user)) (u_id current_user)) \<le> 20
          \<longrightarrow> serialize_video v d \<in> fst ` set recs)"
proof -
  let ?uid = "u_id current_user"
  let ?liked = "liked_genre_ids d ?uid"
  let ?top = "take 20 (ranked d ?liked ?uid)"
  let ?ser = "\<lambda>(video, score). (serialize_video video d, score)"
  let ?recs = "if ?liked = [] then [] else map ?ser ?top"
  have run: "run_request (get_recommendations current_user) d = (d, Inr ?recs)"
    by (rule get_recommendations_run)
  have own: "\<exists>v\<in>set (videos d). vo = serialize_video v d \<and> v_owner_id v \<noteq> ?uid"
    if "(vo, score) \<in> set ?recs" for vo score
  proof -
    from that obtain v where v: "(v, score) \<in> set ?top" and vo: "vo = serialize_video v d"
      by (auto split: if_splits)
    then have "(v, score) \<in> set (ranked d ?liked ?uid)"
      by (meson in_set_takeD)
    from ranked_member[OF pk this] show ?thesis
      using vo by auto
  qed
  have kept: "serialize_video v d \<in> fst ` set ?recs"
    if v: "v \<in> set (videos d)" and o: "v_owner_id v \<noteq> ?uid"
      and g: "\<exists>g\<in>set (genres_of d v). g_id g \<in> set ?liked"
      and few: "length (ranked d ?liked ?uid) \<le> 20" for v
  proof -
    from g obtain g where g': "g \<in> set (genres_of d v)" "g_id g \<in> set ?liked" by blast
    then have ne: "?liked \<noteq> []" by auto
    have "(v, g) \<in> set (candidate_rows d ?liked ?uid)"
      using v o g' by (simp add: candidate_rows_member)
    from group_by_video_complete[OF this] obtain v' n where
      m: "(v', n) \<in> set (group_by_video (candidate_rows d ?liked ?uid))" and id: "v_id v' = v_id v"
      by blast
    have "(v', n) \<in> set (ranked d ?liked ?uid)"
      using m by (simp add: ranked_set)
    moreover from ranked_member[OF pk this] have "v' \<in> set (videos d)" by simp
    then have "v' = v"
      using distinct_map_eq[OF pk _ v id] by simp
    ultimately have "(v, n) \<in> set ?top"
      using few by simp
    then have "(serialize_video v d, n) \<in> set ?recs"
      using ne by force
    then show ?thesis
      by (rule rev_image_eqI) simp
  qed
  show ?thesis
    apply (rule exI[of _ ?recs])
    apply (intro conjI)
      apply (rule run)
    using own apply blast
    using kept apply blast
    done
qed

text \<open>
  The theorem at work: the clip of alice, which bob likes, is among the videos bob gets,
  and none of them is owned by bob (id 2).
\<close>

theorem recommendations_keep_liked_videos_witness:
  "distinct (map v_id (videos db_recs))
   \<and> (\<exists>recs. run_request (get_recommendations bob) db_recs = (db_recs, Inr recs)
        \<and> serialize_video clip db_recs \<in> fst ` set recs
        \<and> map (\<lambda>(vo, score). map_option uo_id (vo_owner vo)) recs = [Some 3, Some 1, Some 1])
   \<and> u_id bob = 2 \<and> (2, v_id clip) \<in> like_pairs db_recs"
proof -
  have pk: "distinct (map v_id (videos db_recs))" by code_simp
  obtain recs where run: "run_request (get_recommendations bob) db_recs = (db_recs, Inr recs)"
    and kept: "\<forall>v\<in>set (videos db_recs).
          v_owner_id v \<noteq> u_id bob
          \<and> (\<exists>g\<in>set (genres_of db_recs v). g_id g \<in> set (liked_genre_ids db_recs (u_id bob)))
          \<and> length (ranked db_recs (liked_genre_ids db_recs (u_id bob)) (u_id bob)) \<le> 20
          \<longrightarrow> serialize_video v db_recs \<in> fst ` set recs"
    using recommendations_keep_liked_videos[OF pk, of bob] by (elim exE conjE) (rule that; assumption)
  have c: "clip \<in> set (videos db_recs)" by code_simp
  have o: "v_owner_id clip \<noteq> u_id bob" by code_simp
  have g: "\<exists>g\<in>set (genres_of db_recs clip). g_id g \<in> set (liked_genre_ids db_recs (u_id bob))"
    by code_simp
  have few: "length (ranked db_recs (liked_genre_ids db_recs (u_id bob)) (u_id bob)) \<le> 20"
    by code_simp
  have in_recs: "serialize_video clip db_recs \<in> fst ` set recs"
    using kept c o g few by blast
  have r: "recs = projr (snd (run_request (get_recommendations bob) db_recs))"
    using run by simp
  have ev: "map (\<lambda>(vo, score). map_option uo_id (vo_owner vo))
              (projr (snd (run_request (get_recommendations bob) db_recs))) = [Some 3, Some 1, Some 1]"
    by code_simp
  have b: "u_id bob = 2" "(2, v_id clip) \<in> like_pairs db_recs" by code_simp+
  show ?thesis
    by (intro conjI exI[of _ recs]) (rule pk run in_recs ev[folded r] b)+
qed

text \<open>
  C2 as first stated fails: bob likes video 1, and video 1 is the second of his
  recommendations.
\<close>

theorem recommendations_liked_video_counterexample:
  "(u_id bob, 1) \<in> like_pairs db_recs
   \<and> (\<exists>recs. run_request (get_recommendations bob) db_recs = (db_recs, Inr recs)
        \<and> map (\<lambda>(vo, score). vo_id vo) recs = [5, 1, 4])"
proof -
  have l: "(u_id bob, 1) \<in> like_pairs db_recs" by code_simp
  have ev: "map (\<lambda>(vo, score). vo_id vo) (projr (snd (run_request (get_recommendations bob) db_recs))) = [5, 1, 4]"
    by code_simp
  show ?thesis
    by (intro conjI exI[of _ "projr (snd (run_request (get_recommendations bob) db_recs))"])
      (rule l run_recommendations_bob ev)+
qed

subsection \<open>C8: the likes of a serialized video\<close>

text \<open>
  Claim C8. For every request and every video of its response (the video of an upload or
  of a retrieval, the videos of a listing or of the recommendations), the likes field is
  the number of rows of \<^verbatim>\<open>video_likes\<close> with the id of that video, in the database as the
  request leaves it. The record of a video has no field for a count: the likes of a
  serialized video are determined by the table of likes, whatever the video row.
\<close>

theorem likes_field_counts_rows:
  "(\<forall>d' resp. serve sec now req d = (d', Inr resp) \<longrightarrow>
      (\<forall>vo\<in>set (videos_of_response resp).
          vo_likes vo = length (filter (\<lambda>l. vl_video_id l = vo_id vo) (video_likes d'))))
   \<and> vo_likes (serialize_video v (d\<lparr>video_likes := ls\<rparr>)) = length (filter (\<lambda>l. vl_video_id l = v_id v) ls)"
proof (intro conjI allI impI ballI)
  fix d' resp vo
  assume sv: "serve sec now req d = (d', Inr resp)" and vo: "vo \<in> set (videos_of_response resp)"
  obtain s1 r where e: "route sec now req (SessionLocal d) = (s1, r)"
    by (cases "route sec now req (SessionLocal d)")
  have r: "r = Inr resp" and d': "d' = persisted s1"
    using sv e by (simp_all add: serve_def run_request_def get_db_def close_def)
  have "txn (SessionLocal d) = persisted (SessionLocal d)"
    by (simp add: SessionLocal_def)
  from route_atomic[OF this e] have "persisted s1 = txn s1"
    using r by simp
  then show "vo_likes vo = length (filter (\<lambda>l. vl_video_id l = vo_id vo) (video_likes d'))"
    using route_likes[OF e[unfolded r] vo] d' by (simp add: count_likes_def)
next
  show "vo_likes (serialize_video v (d\<lparr>video_likes := ls\<rparr>)) = length (filter (\<lambda>l. vl_video_id l = v_id v) ls)"
    by (simp add: count_likes_def)
qed

text \<open>
  The theorem at work: the clip is retrieved with one like, the number of rows for it;
  with an empty table of likes the same video row is serialized with no like.
\<close>

theorem likes_field_counts_rows_witness:
  "serve sec0 9 (GetVideo 1) db_recs = (db_recs, Inr (VideoResponse (serialize_video clip db_recs)))
   \<and> vo_likes (serialize_video clip db_recs) = 1
   \<and> length (filter (\<lambda>l. vl_video_id l = 1) (video_likes db_recs)) = 1
   \<and> vo_likes (serialize_video clip (db_recs\<lparr>video_likes := []\<rparr>)) = 0"
proof -
  have ev: "serve sec0 9 (GetVideo 1) db_recs = (db_recs, Inr (VideoResponse (serialize_video clip db_recs)))"
    by code_simp
  note t = likes_field_counts_rows[where sec = sec0 and now = 9 and req = "GetVideo 1" and d = db_recs
      and v = clip and ls = "[]"]
  have m: "serialize_video clip db_recs \<in> set (videos_of_response (VideoResponse (serialize_video clip db_recs)))"
    by (simp add: videos_of_response_def)
  have "vo_likes (serialize_video clip db_recs)
      = length (filter (\<lambda>l. vl_video_id l = vo_id (serialize_video clip db_recs)) (video_likes db_recs))"
    using t ev m by blast
  moreover have "vo_id (serialize_video clip db_recs) = 1" by code_simp
  moreover have c: "length (filter (\<lambda>l. vl_video_id l = 1) (video_likes db_recs)) = 1" by code_simp
  moreover have "vo_likes (serialize_video clip (db_recs\<lparr>video_likes := []\<rparr>)) = 0"
    using t by simp
  ultimately show ?thesis
    using ev by simp
qed

end
